theory Spec2Isabelle
  imports Main "HOL-Library.AList"
begin

section \<open>Data model of app/main.py\<close>

text \<open>
  The module keeps three global dictionaries (\<open>drivers\<close>, \<open>timers\<close>, \<open>semaphores\<close>),
  keyed by the client id. Every function below takes the global state and returns it
  updated; a Python exception is the \<open>Inl\<close> branch of the result, and the state is
  returned in that case too, since the globals keep whatever was written before the raise.
\<close>

type_synonym client_id = string

text \<open>A dictionary value that the code may overwrite with Python's \<open>None\<close>.\<close>

datatype 'a nullable = PyNone | Ref 'a

datatype exn =
    KeyError
  | AttributeError
  | IndexError
  | TypeError
  | DriverError
  | OSError
  | HTTPException nat

text \<open>
  Modelled from the spec: the status enumeration \<open>WhatsAPIDriverStatus\<close> is declared in the
  \<open>webwhatsapi\<close> package; the module only names \<open>Unknown\<close>, \<open>NotLoggedIn\<close> and
  \<open>LoggedIn\<close>, the three values the specification gives for \<open>Handle.status()\<close>.
\<close>

datatype WhatsAPIDriverStatus = Unknown | NotLoggedIn | LoggedIn

text \<open>
  A message group of \<open>get_unread()\<close>; the field says whether \<open>chat.send_seen()\<close> returns
  (\<open>True\<close>) or raises.
\<close>

datatype message_group = MessageGroup (send_seen: bool)

text \<open>
  Modelled from the spec: the class \<open>WhatsAPIDriver\<close> lives in the \<open>webwhatsapi\<close> package.
  A driver object is taken as a parameter: its identity (the serial number of the
  construction that made it) and the answers its methods give. \<open>quit\<close> is \<open>True\<close> when
  \<open>quit()\<close> returns and \<open>False\<close> when it raises; \<open>get_unread\<close> is \<open>None\<close> when
  \<open>get_unread()\<close> raises.
\<close>

record driver =
  ident :: nat
  get_status :: WhatsAPIDriverStatus
  is_logged_in :: bool
  quit :: bool
  get_unread :: "message_group list option"

text \<open>
  \<open>RepeatedTimer\<close>: the interval, the argument handed to the callback (the callback is
  always \<open>check_new_messages\<close>) and the running flag. The wrapped \<open>threading.Timer\<close> is
  visible through the events \<open>TimerStart\<close> and \<open>TimerCancel\<close> only, which name the key of
  the \<open>timers\<close> table under which the timer object is stored.
\<close>

record RepeatedTimer =
  interval :: nat
  args :: client_id
  is_running :: bool

text \<open>Calls that leave the module, in the order they are made.\<close>

datatype event =
    Construct client_id nat
  | GetStatus nat
  | IsLoggedIn nat
  | Quit nat
  | GetUnread nat
  | SendSeen nat
  | SemAcquire client_id nat bool
  | SemRelease client_id
  | TimerStart client_id
  | TimerCancel client_id
  | MakeDirs string
  | RmTree string
  | Print "message_group list"

text \<open>
  The globals. \<open>drivers\<close> is an association list in insertion order, because
  \<open>kill_clients\<close> iterates over its keys; a \<open>threading.Semaphore\<close> is its counter;
  \<open>directories\<close> are the paths that exist on disk; \<open>constructed\<close> counts the
  \<open>WhatsAPIDriver\<close> objects made so far.
\<close>

record state =
  drivers :: "(client_id \<times> driver) list"
  timers :: "client_id \<rightharpoonup> RepeatedTimer nullable"
  semaphores :: "client_id \<rightharpoonup> nat nullable"
  directories :: "string set"
  constructed :: nat
  trace :: "event list"

text \<open>
  What the module reads from its environment: \<open>API_KEY\<close> and \<open>SELENIUM\<close> from
  \<open>os.environ\<close>, \<open>BASE_DIR\<close> from the file's location, and the outcome of the
  constructor \<open>WhatsAPIDriver(username=client_id, ...)\<close> for the n-th construction
  (\<open>None\<close> when it raises).
\<close>

record config =
  API_KEY :: "string option"
  BASE_DIR :: string
  SELENIUM :: "string option"
  WhatsAPIDriver :: "client_id \<Rightarrow> nat \<Rightarrow> driver option"

definition FIREFOX_CACHE_PATH :: "config \<Rightarrow> string" where
  "FIREFOX_CACHE_PATH cfg = BASE_DIR cfg @ ''/app/app/firefox_cache/''"

definition emit :: "event \<Rightarrow> state \<Rightarrow> state" where
  "emit e st = st\<lparr>trace := trace st @ [e]\<rparr>"

text \<open>Python's truth value of a header that is \<open>None\<close> or a string.\<close>

definition truthy :: "string option \<Rightarrow> bool" where
  "truthy s = (case s of None \<Rightarrow> False | Some v \<Rightarrow> v \<noteq> [])"

section \<open>Semaphores\<close>

text \<open>
  \<open>threading.Semaphore.acquire(blocking=True, timeout=t)\<close> on a counter \<open>v\<close>: a positive
  counter is decremented and the call returns \<open>True\<close>; on a zero counter the call waits
  at most \<open>t\<close> and, nobody releasing meanwhile, returns \<open>False\<close>.
  \<open>threading.Semaphore.release()\<close> increments the counter, whatever its value.
\<close>

definition Semaphore_acquire :: "client_id \<Rightarrow> nat \<Rightarrow> nat \<Rightarrow> state \<Rightarrow> bool \<times> state" where
  "Semaphore_acquire c timeout v st =
     (if v = 0 then (False, emit (SemAcquire c timeout False) st)
      else (True, emit (SemAcquire c timeout True)
                    (st\<lparr>semaphores := (semaphores st)(c \<mapsto> Ref (v - 1))\<rparr>)))"

definition Semaphore_release :: "client_id \<Rightarrow> nat \<Rightarrow> state \<Rightarrow> state" where
  "Semaphore_release c v st =
     emit (SemRelease c) (st\<lparr>semaphores := (semaphores st)(c \<mapsto> Ref (v + 1))\<rparr>)"

definition acquire_semaphore ::
  "string option \<Rightarrow> bool \<Rightarrow> state \<Rightarrow> (exn + bool) \<times> state" where
  "acquire_semaphore client_id cancel_if_locked st =
     (case client_id of
        None \<Rightarrow> (Inr False, st)
      | Some c \<Rightarrow>
          if c = [] then (Inr False, st)
          else
            let st1 = (case semaphores st c of
                         None \<Rightarrow> st\<lparr>semaphores := (semaphores st)(c \<mapsto> Ref 1)\<rparr>
                       | Some _ \<Rightarrow> st);
                timeout = (if cancel_if_locked then 0 else 10)
            in (case semaphores st1 c of
                  None \<Rightarrow> (Inl KeyError, st1)
                | Some PyNone \<Rightarrow> (Inl AttributeError, st1)
                | Some (Ref v) \<Rightarrow>
                    (case Semaphore_acquire c timeout v st1 of
                       (val, st2) \<Rightarrow> (Inr val, st2))))"

text \<open>
  \<open>release_semaphore\<close> returns \<open>False\<close> for a missing client id and falls off its end
  (Python's \<open>None\<close>, here \<open>Inr None\<close>) otherwise.
\<close>

definition release_semaphore ::
  "string option \<Rightarrow> state \<Rightarrow> (exn + bool option) \<times> state" where
  "release_semaphore client_id st =
     (case client_id of
        None \<Rightarrow> (Inr (Some False), st)
      | Some c \<Rightarrow>
          if c = [] then (Inr (Some False), st)
          else
            (case semaphores st c of
               None \<Rightarrow> (Inr None, st)
             | Some PyNone \<Rightarrow> (Inl AttributeError, st)
             | Some (Ref v) \<Rightarrow> (Inr None, Semaphore_release c v st)))"

section \<open>Timers\<close>

text \<open>
  \<open>RepeatedTimer.start\<close> and \<open>RepeatedTimer.stop\<close> mutate the timer object, which
  lives in the \<open>timers\<close> table under the key \<open>k\<close>.
\<close>

definition RepeatedTimer_start :: "client_id \<Rightarrow> RepeatedTimer \<Rightarrow> state \<Rightarrow> state" where
  "RepeatedTimer_start k t st =
     (if \<not> is_running t
      then emit (TimerStart k)
             (st\<lparr>timers := (timers st)(k \<mapsto> Ref (t\<lparr>is_running := True\<rparr>))\<rparr>)
      else st)"

definition RepeatedTimer_stop :: "client_id \<Rightarrow> RepeatedTimer \<Rightarrow> state \<Rightarrow> state" where
  "RepeatedTimer_stop k t st =
     emit (TimerCancel k)
       (st\<lparr>timers := (timers st)(k \<mapsto> Ref (t\<lparr>is_running := False\<rparr>))\<rparr>)"

text \<open>
  \<open>init_timer\<close>: an entry that holds a timer object is started again; a missing entry
  or one that holds \<open>None\<close> gets \<open>RepeatedTimer(2, check_new_messages, client_id)\<close>,
  whose constructor starts it.
\<close>

definition init_timer :: "client_id \<Rightarrow> state \<Rightarrow> state" where
  "init_timer c st =
     (case timers st c of
        Some (Ref t) \<Rightarrow> RepeatedTimer_start c t st
      | _ \<Rightarrow> RepeatedTimer_start c \<lparr>interval = 2, args = c, is_running = False\<rparr> st)"

section \<open>The registry\<close>

text \<open>
  \<open>init_driver\<close>: the profile directory is made when it does not exist, then the
  constructor runs. \<open>os.environ["SELENIUM"]\<close> raises \<open>KeyError\<close> when the variable is
  not set; that happens while the arguments are evaluated, before the constructor is called.
  \<open>os.makedirs\<close> is taken to succeed.
\<close>

definition init_driver :: "config \<Rightarrow> client_id \<Rightarrow> state \<Rightarrow> (exn + driver) \<times> state" where
  "init_driver cfg c st =
     (let profile_path = FIREFOX_CACHE_PATH cfg @ c;
          st1 = (if profile_path \<notin> directories st
                 then emit (MakeDirs profile_path)
                        (st\<lparr>directories := insert profile_path (directories st)\<rparr>)
                 else st)
      in case SELENIUM cfg of
           None \<Rightarrow> (Inl KeyError, st1)
         | Some _ \<Rightarrow>
             let n = constructed st1;
                 st2 = emit (Construct c n) (st1\<lparr>constructed := n + 1\<rparr>)
             in (case WhatsAPIDriver cfg c n of
                   None \<Rightarrow> (Inl DriverError, st2)
                 | Some d \<Rightarrow> (Inr (d\<lparr>ident := n\<rparr>), st2)))"

definition init_client :: "config \<Rightarrow> client_id \<Rightarrow> state \<Rightarrow> (exn + driver) \<times> state" where
  "init_client cfg c st =
     (case map_of (drivers st) c of
        Some d \<Rightarrow> (Inr d, st)
      | None \<Rightarrow>
          (case init_driver cfg c st of
             (Inl e, st1) \<Rightarrow> (Inl e, st1)
           | (Inr d, st1) \<Rightarrow> (Inr d, st1\<lparr>drivers := AList.update c d (drivers st1)\<rparr>)))"

text \<open>
  The \<open>try\<close> block that the function of line 177 and \<open>kill_clients\<close> both run after
  \<open>quit()\<close>; its bare \<open>except: pass\<close> ends the block at the first statement that raises
  (\<open>KeyError\<close> for a client without a timer entry, \<open>AttributeError\<close> for an entry that
  holds \<open>None\<close>).
\<close>

definition stop_and_clear :: "client_id \<Rightarrow> state \<Rightarrow> state" where
  "stop_and_clear c st =
     (case timers st c of
        None \<Rightarrow> st
      | Some PyNone \<Rightarrow> st
      | Some (Ref t) \<Rightarrow>
          let st1 = RepeatedTimer_stop c t st;
              st2 = st1\<lparr>timers := (timers st1)(c \<mapsto> PyNone)\<rparr>
          in (case release_semaphore (Some c) st2 of
                (Inl e, st3) \<Rightarrow> st3
              | (Inr r, st3) \<Rightarrow> st3\<lparr>semaphores := (semaphores st3)(c \<mapsto> PyNone)\<rparr>))"

text \<open>
  \<open>shutil.rmtree(path)\<close> removes an existing directory and raises for a path that does
  not exist.
\<close>

definition rmtree :: "string \<Rightarrow> state \<Rightarrow> (exn + unit) \<times> state" where
  "rmtree pth st =
     (let st1 = emit (RmTree pth) st
      in if pth \<in> directories st1
         then (Inr (), st1\<lparr>directories := directories st1 - {pth}\<rparr>)
         else (Inl OSError, st1))"

text \<open>
  Flask's request context \<open>g\<close>: an attribute is \<open>None\<close> here until the code assigns it.
  \<open>g.client_id\<close> is assigned the header, which may itself be Python's \<open>None\<close>.
\<close>

record g =
  g_client_id :: "string option option"
  g_driver :: "driver option"
  g_driver_status :: "WhatsAPIDriverStatus option"

text \<open>
  The module defines the name \<open>delete_client\<close> twice: on line 177 a function of the two
  parameters \<open>client_id\<close> and \<open>preserve_cache\<close>, on line 439 the view of
  \<open>DELETE /client\<close>, which has no parameter. Python binds a module-level name to the
  definition executed last, so once the module is loaded the name denotes the view and no
  call reaches the function of line 177.

  \<open>delete_client_shadowed\<close> is that function of lines 177 to 195. Its argument
  \<open>client_id\<close> may be Python's \<open>None\<close>, which is no key of \<open>drivers\<close>. The path to
  remove is built from \<open>g.client_id\<close>, not from the parameter.
\<close>

definition delete_client_shadowed ::
  "config \<Rightarrow> g \<Rightarrow> string option \<Rightarrow> bool \<Rightarrow> state \<Rightarrow> (exn + unit) \<times> state" where
  "delete_client_shadowed cfg gc client_id preserve_cache st =
     (case (case client_id of
              None \<Rightarrow> (Inr (), st)
            | Some c \<Rightarrow>
                (case map_of (drivers st) c of
                   None \<Rightarrow> (Inr (), st)
                 | Some d \<Rightarrow>
                     let st1 = emit (Quit (ident d))
                                 (st\<lparr>drivers := AList.delete c (drivers st)\<rparr>)
                     in if quit d then (Inr (), stop_and_clear c st1)
                        else (Inl DriverError, st1))) of
        (Inl e, st2) \<Rightarrow> (Inl e, st2)
      | (Inr u, st2) \<Rightarrow>
          if \<not> preserve_cache then
            (case g_client_id gc of
               None \<Rightarrow> (Inl AttributeError, st2)
             | Some None \<Rightarrow> (Inl TypeError, st2)
             | Some (Some i) \<Rightarrow> rmtree (FIREFOX_CACHE_PATH cfg @ i) st2)
          else (Inr (), st2))"

section \<open>The poll callback\<close>

text \<open>The loop \<open>for message_group in res: message_group.chat.send_seen()\<close> on driver \<open>i\<close>.\<close>

fun send_seen_all :: "nat \<Rightarrow> message_group list \<Rightarrow> state \<Rightarrow> (exn + unit) \<times> state" where
  "send_seen_all i [] st = (Inr (), st)"
| "send_seen_all i (m # ms) st =
     (let st1 = emit (SendSeen i) st
      in if send_seen m then send_seen_all i ms st1 else (Inl DriverError, st1))"

text \<open>The body of the \<open>try\<close> statement of \<open>check_new_messages\<close> (lines 229 to 238).\<close>

definition poll_body :: "client_id \<Rightarrow> state \<Rightarrow> (exn + unit) \<times> state" where
  "poll_body c st =
     (case map_of (drivers st) c of
        None \<Rightarrow> (Inl KeyError, st)
      | Some d \<Rightarrow>
          let st1 = emit (GetUnread (ident d)) st
          in (case get_unread d of
                None \<Rightarrow> (Inl DriverError, st1)
              | Some res \<Rightarrow>
                  (case send_seen_all (ident d) res st1 of
                     (Inl e, st2) \<Rightarrow> (Inl e, st2)
                   | (Inr u, st2) \<Rightarrow>
                       (case release_semaphore (Some c) st2 of
                          (Inl e, st3) \<Rightarrow> (Inl e, st3)
                        | (Inr r, st3) \<Rightarrow>
                            (Inr (), if res \<noteq> [] then emit (Print res) st3 else st3)))))"

text \<open>\<open>timers[client_id].stop()\<close>, with the lookup that may fail.\<close>

definition stop_timer :: "client_id \<Rightarrow> state \<Rightarrow> (exn + unit) \<times> state" where
  "stop_timer c st =
     (case timers st c of
        None \<Rightarrow> (Inl KeyError, st)
      | Some PyNone \<Rightarrow> (Inl AttributeError, st)
      | Some (Ref t) \<Rightarrow> (Inr (), RepeatedTimer_stop c t st))"

text \<open>
  \<open>check_new_messages\<close>. A driver object is always true in Python, so the test
  \<open>not drivers[client_id]\<close> never holds. The bare \<open>except: pass\<close> drops whatever the
  body raises; the \<open>finally\<close> clause then calls \<open>release_semaphore\<close> once more.
\<close>

definition check_new_messages :: "client_id \<Rightarrow> state \<Rightarrow> (exn + unit) \<times> state" where
  "check_new_messages c st =
     (case map_of (drivers st) c of
        None \<Rightarrow> stop_timer c st
      | Some d \<Rightarrow>
          let st1 = emit (IsLoggedIn (ident d)) st
          in if \<not> is_logged_in d then stop_timer c st1
             else
               (case acquire_semaphore (Some c) True st1 of
                  (Inl e, st2) \<Rightarrow> (Inl e, st2)
                | (Inr False, st2) \<Rightarrow> (Inr (), st2)
                | (Inr True, st2) \<Rightarrow>
                    (case release_semaphore (Some c) (snd (poll_body c st2)) of
                       (Inl e, st4) \<Rightarrow> (Inl e, st4)
                     | (Inr r, st4) \<Rightarrow> (Inr (), st4))))"

section \<open>Status reports\<close>

record client_info =
  info_is_alive :: bool
  info_is_logged_in :: bool
  info_is_timer :: bool

definition get_client_info ::
  "client_id \<Rightarrow> state \<Rightarrow> (exn + client_info option) \<times> state" where
  "get_client_info c st =
     (case map_of (drivers st) c of
        None \<Rightarrow> (Inr None, st)
      | Some d \<Rightarrow>
          let st1 = emit (GetStatus (ident d)) st;
              driver_status = get_status d
          in (case timers st1 c of
                None \<Rightarrow> (Inl KeyError, st1)
              | Some tm \<Rightarrow>
                  (Inr (Some \<lparr>info_is_alive =
                                 (driver_status = NotLoggedIn \<or> driver_status = LoggedIn),
                               info_is_logged_in = (driver_status = LoggedIn),
                               info_is_timer =
                                 (case tm of PyNone \<Rightarrow> False | Ref t \<Rightarrow> is_running t)\<rparr>),
                   st1)))"

text \<open>The dictionary comprehension of \<open>get_active_clients\<close>, over the keys of \<open>drivers\<close>.\<close>

fun client_infos ::
  "client_id list \<Rightarrow> state \<Rightarrow> (exn + (client_id \<times> client_info option) list) \<times> state" where
  "client_infos [] st = (Inr [], st)"
| "client_infos (c # cs) st =
     (case get_client_info c st of
        (Inl e, st1) \<Rightarrow> (Inl e, st1)
      | (Inr i, st1) \<Rightarrow>
          (case client_infos cs st1 of
             (Inl e, st2) \<Rightarrow> (Inl e, st2)
           | (Inr r, st2) \<Rightarrow> (Inr ((c, i) # r), st2)))"

datatype response =
    Error string
  | Success bool
  | Clients "(client_id \<times> client_info option) list"

definition get_active_clients :: "state \<Rightarrow> (exn + response) \<times> state" where
  "get_active_clients st =
     (if drivers st = [] then (Inr (Clients []), st)
      else (case client_infos (map fst (drivers st)) st of
              (Inl e, st1) \<Rightarrow> (Inl e, st1)
            | (Inr r, st1) \<Rightarrow> (Inr (Clients r), st1)))"

section \<open>The request hooks\<close>

text \<open>
  What the hooks and \<open>kill_clients\<close> read from Flask's \<open>request\<close>: the matched rule
  (\<open>None\<close> when no route matches), the headers, the form fields and the query arguments.
\<close>

record request =
  url_rule :: "string option"
  headers :: "string \<rightharpoonup> string"
  form :: "string \<rightharpoonup> string"
  args :: "string \<rightharpoonup> string"

text \<open>Python's \<open>s.split(sep)\<close> for a one-character separator.\<close>

fun str_split :: "char \<Rightarrow> string \<Rightarrow> string list" where
  "str_split sep [] = [[]]"
| "str_split sep (x # xs) =
     (if x = sep then [] # str_split sep xs
      else (case str_split sep xs of
              [] \<Rightarrow> [[x]]
            | w # ws \<Rightarrow> (x # w) # ws))"

text \<open>\<open>request.url_rule.rule.split("/")[1]\<close>.\<close>

definition rule_parent_of :: "string \<Rightarrow> exn + string" where
  "rule_parent_of rule =
     (case str_split CHR ''/'' rule of
        a # b # rest \<Rightarrow> Inr b
      | _ \<Rightarrow> Inl IndexError)"

text \<open>
  Lines 383 to 401 of \<open>before_request\<close>, for the client id \<open>c\<close> of a request outside
  \<open>/admin\<close>. \<open>g.driver\<close> is assigned once, from the registry, and is not assigned again
  after the second call of \<open>init_client\<close>: the second \<open>get_status()\<close> goes to the object
  \<open>g.driver\<close> already holds. The values of \<open>drivers\<close> are driver objects, never
  \<open>None\<close>, so the test \<open>g.driver is not None\<close> of line 390 always holds.
\<close>

definition session_step ::
  "config \<Rightarrow> client_id \<Rightarrow> g \<Rightarrow> state \<Rightarrow> (exn + unit) \<times> g \<times> state" where
  "session_step cfg c g1 st =
     (case (if map_of (drivers st) c = None
            then (case init_client cfg c st of
                    (Inl e, s) \<Rightarrow> (Inl e, s)
                  | (Inr d, s) \<Rightarrow> (Inr (), s\<lparr>drivers := AList.update c d (drivers s)\<rparr>))
            else (Inr (), st)) of
        (Inl e, st1) \<Rightarrow> (Inl e, g1, st1)
      | (Inr u, st1) \<Rightarrow>
          (case map_of (drivers st1) c of
             None \<Rightarrow> (Inl KeyError, g1, st1)
           | Some d \<Rightarrow>
               let g2 = g1\<lparr>g_driver := Some d, g_driver_status := Some Unknown\<rparr>;
                   st2 = emit (GetStatus (ident d)) st1;
                   g3 = g2\<lparr>g_driver_status := Some (get_status d)\<rparr>
               in if get_status d \<noteq> NotLoggedIn \<and> get_status d \<noteq> LoggedIn
                  then
                    (case init_client cfg c st2 of
                       (Inl e, st3) \<Rightarrow> (Inl e, g3, st3)
                     | (Inr d', st3) \<Rightarrow>
                         let st4 = st3\<lparr>drivers := AList.update c d' (drivers st3)\<rparr>;
                             st5 = emit (GetStatus (ident d)) st4;
                             g4 = g3\<lparr>g_driver_status := Some (get_status d)\<rparr>
                         in (Inr (), g4, init_timer c st5))
                  else (Inr (), g3, init_timer c st2)))"

text \<open>
  \<open>before_request\<close>. The logger is left out. \<open>abort(n)\<close> raises \<open>HTTPException n\<close>. The
  value \<open>acquire_semaphore\<close> returns is not used. A request outside \<open>/admin\<close> that reaches
  line 383 has a non-empty client id (line 377 aborts otherwise), so the branch for a
  missing one is never taken there.
\<close>

definition before_request ::
  "config \<Rightarrow> request \<Rightarrow> state \<Rightarrow> (exn + unit) \<times> g \<times> state" where
  "before_request cfg req st =
     (let g0 = \<lparr>g_client_id = None, g_driver = None, g_driver_status = None\<rparr>
      in case url_rule req of
           None \<Rightarrow> (Inl (HTTPException 404), g0, st)
         | Some rule \<Rightarrow>
             let auth_key = headers req ''auth-key'';
                 g1 = g0\<lparr>g_client_id := Some (headers req ''client-id'')\<rparr>
             in (case rule_parent_of rule of
                   Inl e \<Rightarrow> (Inl e, g1, st)
                 | Inr rule_parent \<Rightarrow>
                     if truthy (API_KEY cfg) \<and> auth_key \<noteq> API_KEY cfg
                     then (Inl (HTTPException 401), g1, st)
                     else if \<not> truthy (headers req ''client-id'') \<and> rule_parent \<noteq> ''admin''
                     then (Inl (HTTPException 400), g1, st)
                     else
                       (case acquire_semaphore (headers req ''client-id'') False st of
                          (Inl e, st1) \<Rightarrow> (Inl e, g1, st1)
                        | (Inr val, st1) \<Rightarrow>
                            if rule_parent \<noteq> ''admin''
                            then (case headers req ''client-id'' of
                                    None \<Rightarrow> (Inl (HTTPException 400), g1, st1)
                                  | Some c \<Rightarrow> session_step cfg c g1 st1)
                            else (Inr (), g1, st1))))"

definition after_request :: "g \<Rightarrow> state \<Rightarrow> (exn + unit) \<times> state" where
  "after_request gc st =
     (case g_client_id gc of
        None \<Rightarrow> (Inr (), st)
      | Some cid \<Rightarrow>
          if truthy cid
          then (case release_semaphore cid st of
                  (Inl e, st1) \<Rightarrow> (Inl e, st1)
                | (Inr r, st1) \<Rightarrow> (Inr (), st1))
          else (Inr (), st))"

section \<open>The view of \<open>DELETE /client\<close>\<close>

text \<open>
  The definitions of the name \<open>delete_client\<close> in the order in which the module executes
  them: the line of the \<open>def\<close> statement and the number of its parameters.
\<close>

definition delete_client_definitions :: "(nat \<times> nat) list" where
  "delete_client_definitions = [(177, 2), (439, 0)]"

text \<open>A module-level name denotes the object of the definition executed last.\<close>

definition delete_client_binding :: "nat \<times> nat" where
  "delete_client_binding = last delete_client_definitions"

text \<open>
  \<open>delete_client\<close>, the view of lines 438 to 443: the function the name denotes when a
  request arrives. Its statement \<open>delete_client(g.client_id, preserve_cache)\<close> on line
  442 looks the name up in the module. The arguments are evaluated first (\<open>g.client_id\<close>
  raises \<open>AttributeError\<close> when the attribute was never assigned); a call with two
  positional arguments of a function that has another number of parameters then raises
  \<open>TypeError\<close> before any statement of the callee runs. Only if the name were bound to
  the function of line 177 would that function run.
\<close>

definition delete_client ::
  "config \<Rightarrow> request \<Rightarrow> g \<Rightarrow> state \<Rightarrow> (exn + response) \<times> state" where
  "delete_client cfg req gc st =
     (let preserve_cache = truthy (args req ''preserve_cache'')
      in case g_client_id gc of
           None \<Rightarrow> (Inl AttributeError, st)
         | Some cid \<Rightarrow>
             if snd delete_client_binding \<noteq> 2 then (Inl TypeError, st)
             else (case delete_client_shadowed cfg gc cid preserve_cache st of
                     (Inl e, st1) \<Rightarrow> (Inl e, st1)
                   | (Inr u, st1) \<Rightarrow> (Inr (Success True), st1)))"

section \<open>The admin sweep\<close>

text \<open>
  The body of the loop of \<open>kill_clients\<close> for one key. \<open>is_logged_in()\<close> is called only
  when \<open>kill_dead\<close> holds; \<open>quit()\<close> is outside the \<open>try\<close> block.
\<close>

definition kill_one :: "bool \<Rightarrow> string list \<Rightarrow> client_id \<Rightarrow> state \<Rightarrow> (exn + unit) \<times> state" where
  "kill_one kill_dead clients client st =
     (case (if kill_dead
            then (case map_of (drivers st) client of
                    None \<Rightarrow> (Inl KeyError, st)
                  | Some d \<Rightarrow>
                      (Inr (\<not> is_logged_in d \<or> client \<in> set clients),
                       emit (IsLoggedIn (ident d)) st))
            else (Inr (client \<in> set clients), st)) of
        (Inl e, st1) \<Rightarrow> (Inl e, st1)
      | (Inr cond, st1) \<Rightarrow>
          if cond
          then (case map_of (drivers st1) client of
                  None \<Rightarrow> (Inl KeyError, st1)
                | Some d \<Rightarrow>
                    let st2 = emit (Quit (ident d))
                                (st1\<lparr>drivers := AList.delete client (drivers st1)\<rparr>)
                    in if quit d then (Inr (), stop_and_clear client st2)
                       else (Inl DriverError, st2))
          else (Inr (), st1))"

fun kill_loop ::
  "bool \<Rightarrow> string list \<Rightarrow> client_id list \<Rightarrow> state \<Rightarrow> (exn + unit) \<times> state" where
  "kill_loop kill_dead clients [] st = (Inr (), st)"
| "kill_loop kill_dead clients (c # cs) st =
     (case kill_one kill_dead clients c st of
        (Inl e, st1) \<Rightarrow> (Inl e, st1)
      | (Inr u, st1) \<Rightarrow> kill_loop kill_dead clients cs st1)"

text \<open>
  \<open>kill_clients\<close>. \<open>request.form.get("clients")\<close> is \<open>None\<close> when the field is not
  sent, and \<open>None.split\<close> raises \<open>AttributeError\<close>. A query argument \<open>kill_dead\<close> counts
  when it is \<open>"true"\<close> or \<open>"1"\<close>. The loop runs over a copy of the keys.
\<close>

definition kill_clients :: "request \<Rightarrow> state \<Rightarrow> (exn + response) \<times> state" where
  "kill_clients req st =
     (case form req ''clients'' of
        None \<Rightarrow> (Inl AttributeError, st)
      | Some s \<Rightarrow>
          let clients = str_split CHR '','' s;
              kill_dead = (case args req ''kill_dead'' of
                             None \<Rightarrow> False
                           | Some v \<Rightarrow> v = ''true'' \<or> v = ''1'')
          in if \<not> kill_dead \<and> clients = []
             then (Inr (Error ''no clients provided''), st)
             else (case kill_loop kill_dead clients (map fst (drivers st)) st of
                     (Inl e, st1) \<Rightarrow> (Inl e, st1)
                   | (Inr u, st1) \<Rightarrow> get_active_clients st1))"

section \<open>Observations\<close>

text \<open>The calls of the trace that go to a driver object or to its constructor.\<close>

fun is_driver_call :: "event \<Rightarrow> bool" where
  "is_driver_call (Construct c n) = True"
| "is_driver_call (GetStatus i) = True"
| "is_driver_call (IsLoggedIn i) = True"
| "is_driver_call (Quit i) = True"
| "is_driver_call (GetUnread i) = True"
| "is_driver_call (SendSeen i) = True"
| "is_driver_call e = False"

text \<open>The calls of the trace that go to a semaphore.\<close>

fun is_lock_call :: "event \<Rightarrow> bool" where
  "is_lock_call (SemAcquire c t b) = True"
| "is_lock_call (SemRelease c) = True"
| "is_lock_call e = False"

text \<open>
  A request for client \<open>c\<close> outside \<open>/admin\<close> that passes the checks of lines 362 to 378
  of \<open>before_request\<close>: a rule matched, the key is accepted, the client id is not empty.
\<close>

definition client_request :: "config \<Rightarrow> request \<Rightarrow> client_id \<Rightarrow> bool" where
  "client_request cfg req c =
     ((case url_rule req of
         None \<Rightarrow> False
       | Some rule \<Rightarrow>
           (case rule_parent_of rule of
              Inl e \<Rightarrow> False
            | Inr rule_parent \<Rightarrow> rule_parent \<noteq> ''admin''))
      \<and> \<not> (truthy (API_KEY cfg) \<and> headers req ''auth-key'' \<noteq> API_KEY cfg)
      \<and> headers req ''client-id'' = Some c
      \<and> c \<noteq> [])"

text \<open>
  The calls made while the loop of \<open>kill_clients\<close> removes the client \<open>c\<close> with driver
  \<open>d\<close>, when \<open>quit()\<close> returns and the client has a timer object: \<open>quit()\<close>, the
  cancellation of the timer, and \<open>release()\<close> on the client's semaphore when the lock
  table of \<open>st\<close> holds one for a non-empty id.
\<close>

definition removal_events :: "state \<Rightarrow> client_id \<Rightarrow> driver \<Rightarrow> event list" where
  "removal_events st c d =
     [Quit (ident d), TimerCancel c] @
     (case semaphores st c of
        Some (Ref v) \<Rightarrow> if c = [] then [] else [SemRelease c]
      | _ \<Rightarrow> [])"

text \<open>
  The calls of a sweep with \<open>kill_dead\<close> set over the keys \<open>cs\<close>, none of them named in
  \<open>clients\<close>: for each key \<open>is_logged_in()\<close> on its driver in \<open>st\<close>, followed by the
  calls of the removal when the driver is not logged in.
\<close>

definition sweep_events :: "state \<Rightarrow> client_id list \<Rightarrow> event list" where
  "sweep_events st cs =
     concat (map (\<lambda>c. case map_of (drivers st) c of
                         None \<Rightarrow> []
                       | Some d \<Rightarrow>
                           IsLoggedIn (ident d) #
                           (if is_logged_in d then [] else removal_events st c d)) cs)"

section \<open>Concrete inputs\<close>

text \<open>
  A driver with serial number \<open>i\<close> that reports the status \<open>s\<close>, whose \<open>quit()\<close> returns
  iff \<open>q\<close>, and whose \<open>get_unread()\<close> gives \<open>u\<close>.
\<close>

definition example_driver ::
  "nat \<Rightarrow> WhatsAPIDriverStatus \<Rightarrow> bool \<Rightarrow> message_group list option \<Rightarrow> driver" where
  "example_driver i s q u =
     \<lparr>ident = i, get_status = s, is_logged_in = (s = LoggedIn), quit = q, get_unread = u\<rparr>"

text \<open>No API key is set; every construction succeeds with a driver that is not logged in.\<close>

definition example_config :: config where
  "example_config =
     \<lparr>API_KEY = None, BASE_DIR = ''/srv'', SELENIUM = Some ''http://selenium:4444/wd/hub'',
      WhatsAPIDriver = (\<lambda>c n. Some (example_driver n NotLoggedIn True (Some [])))\<rparr>"

text \<open>
  A state with the given registry and semaphore table, a running timer for the clients
  listed in \<open>ts\<close>, and a profile directory for none.
\<close>

definition example_state ::
  "(client_id \<times> driver) list \<Rightarrow> client_id list \<Rightarrow> (client_id \<rightharpoonup> nat nullable) \<Rightarrow> state" where
  "example_state ds ts sems =
     \<lparr>drivers = ds,
      timers = map_of (map (\<lambda>c. (c, Ref \<lparr>interval = 2, args = c, is_running = True\<rparr>)) ts),
      semaphores = sems,
      directories = {},
      constructed = length ds,
      trace = []\<rparr>"

text \<open>A request on the rule \<open>rule\<close> with the given \<open>client-id\<close> header and nothing else.\<close>

definition example_request :: "string \<Rightarrow> string option \<Rightarrow> request" where
  "example_request rule cid =
     \<lparr>url_rule = Some rule,
      headers = (case cid of None \<Rightarrow> Map.empty | Some c \<Rightarrow> [''client-id'' \<mapsto> c]),
      form = Map.empty,
      args = Map.empty\<rparr>"

text \<open>
  The request \<open>DELETE /admin/clients\<close> with the form field \<open>clients\<close> and the query
  argument \<open>kill_dead\<close> as given.
\<close>

definition example_kill_request :: "string option \<Rightarrow> string option \<Rightarrow> request" where
  "example_kill_request clients kill_dead =
     \<lparr>url_rule = Some ''/admin/clients'',
      headers = Map.empty,
      form = (case clients of None \<Rightarrow> Map.empty | Some s \<Rightarrow> [''clients'' \<mapsto> s]),
      args = (case kill_dead of None \<Rightarrow> Map.empty | Some s \<Rightarrow> [''kill_dead'' \<mapsto> s])\<rparr>"

section \<open>Basic facts\<close>

lemma emit_simps [simp]:
  "drivers (emit e st) = drivers st"
  "timers (emit e st) = timers st"
  "semaphores (emit e st) = semaphores st"
  "directories (emit e st) = directories st"
  "constructed (emit e st) = constructed st"
  "trace (emit e st) = trace st @ [e]"
  by (simp_all add: emit_def)

lemma acquire_falsy: "\<not> truthy cid \<Longrightarrow> acquire_semaphore cid b st = (Inr False, st)"
  by (auto simp: truthy_def acquire_semaphore_def split: option.splits)

lemma release_falsy: "\<not> truthy cid \<Longrightarrow> release_semaphore cid st = (Inr (Some False), st)"
  by (auto simp: truthy_def release_semaphore_def split: option.splits)

lemma acquire_free:
  "c \<noteq> [] \<Longrightarrow> semaphores st c = Some (Ref (Suc n)) \<Longrightarrow>
   acquire_semaphore (Some c) b st =
     (Inr True, emit (SemAcquire c (if b then 0 else 10) True)
                  (st\<lparr>semaphores := (semaphores st)(c \<mapsto> Ref n)\<rparr>))"
  by (simp add: acquire_semaphore_def Semaphore_acquire_def)

lemma acquire_busy:
  "c \<noteq> [] \<Longrightarrow> semaphores st c = Some (Ref 0) \<Longrightarrow>
   acquire_semaphore (Some c) b st =
     (Inr False, emit (SemAcquire c (if b then 0 else 10) False) st)"
  by (simp add: acquire_semaphore_def Semaphore_acquire_def)

lemma acquire_cleared:
  "c \<noteq> [] \<Longrightarrow> semaphores st c = Some PyNone \<Longrightarrow>
   acquire_semaphore (Some c) b st = (Inl AttributeError, st)"
  by (simp add: acquire_semaphore_def)

lemma release_object:
  "c \<noteq> [] \<Longrightarrow> semaphores st c = Some (Ref n) \<Longrightarrow>
   release_semaphore (Some c) st =
     (Inr None, emit (SemRelease c) (st\<lparr>semaphores := (semaphores st)(c \<mapsto> Ref (Suc n))\<rparr>))"
  by (simp add: release_semaphore_def Semaphore_release_def)

lemma acquire_TrueD:
  assumes "acquire_semaphore (Some c) b st = (Inr True, st2)"
  shows "c \<noteq> [] \<and> drivers st2 = drivers st \<and> timers st2 = timers st \<and>
         (\<exists>v. semaphores st2 c = Some (Ref v)) \<and>
         trace st2 = trace st @ [SemAcquire c (if b then 0 else 10) True]"
  using assms
  by (auto simp: acquire_semaphore_def Semaphore_acquire_def Let_def
           split: if_splits option.splits nullable.splits)

lemma acquire_not_cleared:
  assumes "c \<noteq> []" "semaphores st c \<noteq> Some PyNone"
  shows "\<exists>b st1. acquire_semaphore (Some c) cancel st = (Inr b, st1) \<and>
           drivers st1 = drivers st \<and> constructed st1 = constructed st \<and>
           timers st1 = timers st \<and> directories st1 = directories st \<and>
           filter is_driver_call (trace st1) = filter is_driver_call (trace st)"
  using assms
  by (auto simp: acquire_semaphore_def Semaphore_acquire_def Let_def
           split: option.splits nullable.splits)

lemma init_timer_keeps [simp]:
  "drivers (init_timer c st) = drivers st"
  "semaphores (init_timer c st) = semaphores st"
  "constructed (init_timer c st) = constructed st"
  "directories (init_timer c st) = directories st"
  "filter is_driver_call (trace (init_timer c st)) = filter is_driver_call (trace st)"
  "filter is_lock_call (trace (init_timer c st)) = filter is_lock_call (trace st)"
  by (auto simp: init_timer_def RepeatedTimer_start_def split: option.splits nullable.splits)

subsection \<open>The poll callback\<close>

lemma send_seen_all_ok:
  "\<forall>m \<in> set res. send_seen m \<Longrightarrow>
   send_seen_all i res st =
     (Inr (), st\<lparr>trace := trace st @ replicate (length res) (SendSeen i)\<rparr>)"
proof (induction res arbitrary: st)
  case Nil
  then show ?case by simp
next
  case (Cons m ms)
  then show ?case
    by (simp add: emit_def replicate_append_same)
qed

lemma send_seen_all_fails:
  "\<not> (\<forall>m \<in> set res. send_seen m) \<Longrightarrow> fst (send_seen_all i res st) = Inl DriverError"
  by (induction res arbitrary: st) (auto simp: Let_def)

lemma send_seen_all_keeps:
  "send_seen_all i res st = (r, st') \<Longrightarrow>
     drivers st' = drivers st \<and> timers st' = timers st \<and> semaphores st' = semaphores st \<and>
     count_list (trace st') (SemRelease c) = count_list (trace st) (SemRelease c)"
proof (induction res arbitrary: st)
  case Nil
  then show ?case by simp
next
  case (Cons m ms)
  show ?case
  proof (cases "send_seen m")
    case True
    with Cons.prems have "send_seen_all i ms (emit (SendSeen i) st) = (r, st')"
      by simp
    from Cons.IH [OF this] show ?thesis by simp
  next
    case False
    with Cons.prems show ?thesis by auto
  qed
qed

text \<open>
  When the fetch or a mark-seen call raises, the statement \<open>release_semaphore\<close> of the
  \<open>try\<close> body is not reached and the \<open>finally\<close> clause releases once.
\<close>

lemma poll_error_releases_once:
  assumes "map_of (drivers st) c = Some d" "is_logged_in d"
    and "acquire_semaphore (Some c) True (emit (IsLoggedIn (ident d)) st) = (Inr True, st2)"
    and "get_unread d = None \<or>
         (\<exists>res. get_unread d = Some res \<and> \<not> (\<forall>m \<in> set res. send_seen m))"
  shows "\<exists>st' v. check_new_messages c st = (Inr (), st') \<and>
           semaphores st2 c = Some (Ref v) \<and> semaphores st' c = Some (Ref (v + 1)) \<and>
           count_list (trace st') (SemRelease c) = count_list (trace st2) (SemRelease c) + 1"
proof -
  from acquire_TrueD [OF assms(3)] obtain v where
    c: "c \<noteq> []" and d: "drivers st2 = drivers st" and v: "semaphores st2 c = Some (Ref v)"
    by auto
  show ?thesis
  proof (cases "get_unread d")
    case None
    then show ?thesis
      using assms(1-3) c d v
      by (simp add: check_new_messages_def poll_body_def release_object Let_def)
  next
    case (Some res)
    with assms(4) have bad: "\<not> (\<forall>m \<in> set res. send_seen m)" by simp
    obtain r s where run: "send_seen_all (ident d) res (emit (GetUnread (ident d)) st2) = (r, s)"
      by (cases "send_seen_all (ident d) res (emit (GetUnread (ident d)) st2)")
    have r: "r = Inl DriverError"
      using send_seen_all_fails [OF bad, of "ident d" "emit (GetUnread (ident d)) st2"] run
      by simp
    from send_seen_all_keeps [OF run, of c]
    have keep: "semaphores s = semaphores st2"
      "count_list (trace s) (SemRelease c) = count_list (trace st2) (SemRelease c)"
      by simp_all
    show ?thesis
      using assms(1-3) c d v Some run r keep
      by (simp add: check_new_messages_def poll_body_def release_object Let_def)
  qed
qed

subsection \<open>The request hooks\<close>

lemma session_step_registered:
  assumes "map_of (drivers st) c = Some d"
  shows "session_step cfg c g1 st =
     (Inr (), g1\<lparr>g_driver := Some d, g_driver_status := Some (get_status d)\<rparr>,
      init_timer c
        (if get_status d \<noteq> NotLoggedIn \<and> get_status d \<noteq> LoggedIn
         then emit (GetStatus (ident d)) (emit (GetStatus (ident d)) st)
         else emit (GetStatus (ident d)) st))"
  using assms
  by (simp add: session_step_def init_client_def Let_def update_triv emit_def)

lemma before_request_client:
  assumes "client_request cfg req c"
  shows "before_request cfg req st =
     (case acquire_semaphore (Some c) False st of
        (Inl e, st1) \<Rightarrow>
          (Inl e, \<lparr>g_client_id = Some (Some c), g_driver = None, g_driver_status = None\<rparr>, st1)
      | (Inr val, st1) \<Rightarrow>
          session_step cfg c
            \<lparr>g_client_id = Some (Some c), g_driver = None, g_driver_status = None\<rparr> st1)"
  using assms
  by (auto simp: client_request_def before_request_def truthy_def Let_def
           split: option.splits sum.splits prod.splits)

lemma poll_success:
  assumes "c \<noteq> []" "map_of (drivers st) c = Some d" "is_logged_in d"
    and "semaphores st c = Some (Ref (Suc n))"
    and "get_unread d = Some res" "\<forall>m \<in> set res. send_seen m"
  shows "\<exists>st'. check_new_messages c st = (Inr (), st') \<and>
           drivers st' = drivers st \<and>
           semaphores st' c = Some (Ref (Suc (Suc n))) \<and>
           filter is_lock_call (trace st') =
             filter is_lock_call (trace st) @ [SemAcquire c 0 True, SemRelease c, SemRelease c]"
  using assms
  by (simp add: check_new_messages_def poll_body_def acquire_free send_seen_all_ok
        release_object Let_def)

lemma before_request_free:
  assumes "client_request cfg req c" "map_of (drivers st) c = Some d"
    and "semaphores st c = Some (Ref (Suc n))"
  shows "\<exists>gc st'. before_request cfg req st = (Inr (), gc, st') \<and>
           drivers st' = drivers st \<and>
           semaphores st' c = Some (Ref n) \<and>
           filter is_lock_call (trace st') =
             filter is_lock_call (trace st) @ [SemAcquire c 10 True]"
proof -
  from assms(1) have c: "c \<noteq> []" by (simp add: client_request_def)
  show ?thesis
    using assms(2,3) c
    by (simp add: before_request_client [OF assms(1)] acquire_free session_step_registered)
qed

subsection \<open>Removal\<close>

lemma stop_and_clear_timer:
  assumes "timers st c = Some (Ref t)"
  shows "timers (stop_and_clear c st) = (timers st)(c \<mapsto> PyNone) \<and>
         semaphores (stop_and_clear c st) = (semaphores st)(c \<mapsto> PyNone) \<and>
         drivers (stop_and_clear c st) = drivers st \<and>
         constructed (stop_and_clear c st) = constructed st \<and>
         directories (stop_and_clear c st) = directories st \<and>
         TimerCancel c \<in> set (trace (stop_and_clear c st)) \<and>
         set (trace st) \<subseteq> set (trace (stop_and_clear c st))"
  using assms
  by (auto simp: stop_and_clear_def RepeatedTimer_stop_def release_semaphore_def
        Semaphore_release_def Let_def map_upd_triv
      split: option.splits nullable.splits)

lemma stop_and_clear_no_timer:
  assumes "timers st c = None \<or> timers st c = Some PyNone"
  shows "stop_and_clear c st = st"
  using assms by (auto simp: stop_and_clear_def)

lemma kill_one_removed:
  assumes "map_of (drivers st) c = Some d" "quit d" "timers st c = Some (Ref t)"
    and "kill_dead \<and> \<not> is_logged_in d \<or> c \<in> set clients"
  shows "\<exists>st'. kill_one kill_dead clients c st = (Inr (), st') \<and>
           drivers st' = AList.delete c (drivers st) \<and>
           timers st' = (timers st)(c \<mapsto> PyNone) \<and>
           semaphores st' = (semaphores st)(c \<mapsto> PyNone) \<and>
           constructed st' = constructed st \<and> directories st' = directories st \<and>
           Quit (ident d) \<in> set (trace st') \<and> TimerCancel c \<in> set (trace st') \<and>
           set (trace st) \<subseteq> set (trace st')"
proof -
  let ?s1 = "if kill_dead then emit (IsLoggedIn (ident d)) st else st"
  let ?s2 = "emit (Quit (ident d)) (?s1\<lparr>drivers := AList.delete c (drivers ?s1)\<rparr>)"
  have t: "timers ?s2 c = Some (Ref t)"
    using assms(3) by simp
  have k: "kill_one kill_dead clients c st = (Inr (), stop_and_clear c ?s2)"
    using assms by (auto simp: kill_one_def Let_def)
  from stop_and_clear_timer [OF t] show ?thesis
    unfolding k by auto
qed

lemma stop_and_clear_keeps [simp]:
  "drivers (stop_and_clear c st) = drivers st"
  "directories (stop_and_clear c st) = directories st"
  "constructed (stop_and_clear c st) = constructed st"
  by (auto simp: stop_and_clear_def RepeatedTimer_stop_def release_semaphore_def
        Semaphore_release_def Let_def
      split: option.splits nullable.splits)

lemma rmtree_missing:
  "pth \<notin> directories st \<Longrightarrow> fst (rmtree pth st) = Inl OSError"
  by (simp add: rmtree_def Let_def)

text \<open>
  The function of line 177, were it called for a registered client whose \<open>quit()\<close>
  raises: the registry entry is popped, \<open>quit()\<close> is called, and the error leaves the
  function at once; neither the \<open>try\<close> block nor \<open>shutil.rmtree\<close> runs.
\<close>

lemma delete_client_shadowed_quit_raises:
  assumes "map_of (drivers st) c = Some d" and "\<not> quit d"
  shows "delete_client_shadowed cfg gc (Some c) pc st =
           (Inl DriverError,
            emit (Quit (ident d)) (st\<lparr>drivers := AList.delete c (drivers st)\<rparr>))"
  using assms by (simp add: delete_client_shadowed_def Let_def)

lemma get_client_info_keeps:
  assumes "get_client_info c st = (r, st')"
  shows "drivers st' = drivers st \<and> timers st' = timers st \<and>
         semaphores st' = semaphores st \<and> set (trace st) \<subseteq> set (trace st')"
  using assms
  by (auto simp: get_client_info_def Let_def split: option.splits)

subsection \<open>The sweep\<close>

lemma stop_and_clear_exact:
  assumes "timers st c = Some (Ref t)"
  shows "stop_and_clear c st =
           st\<lparr>timers := (timers st)(c \<mapsto> PyNone),
              semaphores := (semaphores st)(c \<mapsto> PyNone),
              trace := trace st @ TimerCancel c #
                (case semaphores st c of
                   Some (Ref v) \<Rightarrow> if c = [] then [] else [SemRelease c]
                 | _ \<Rightarrow> [])\<rparr>"
  using assms
  by (auto simp: stop_and_clear_def RepeatedTimer_stop_def release_semaphore_def
        Semaphore_release_def emit_def Let_def map_upd_triv
      split: option.splits nullable.splits)

lemma kill_one_removed_exact:
  assumes "map_of (drivers st) c = Some d" "quit d" "timers st c = Some (Ref t)"
    and "\<not> is_logged_in d \<or> c \<in> set clients"
  shows "kill_one True clients c st =
           (Inr (), st\<lparr>drivers := AList.delete c (drivers st),
                        timers := (timers st)(c \<mapsto> PyNone),
                        semaphores := (semaphores st)(c \<mapsto> PyNone),
                        trace := trace st @ IsLoggedIn (ident d) # removal_events st c d\<rparr>)"
proof -
  let ?s2 = "emit (Quit (ident d))
     ((emit (IsLoggedIn (ident d)) st)\<lparr>drivers := AList.delete c (drivers st)\<rparr>)"
  have t: "timers ?s2 c = Some (Ref t)"
    using assms(3) by simp
  have k: "kill_one True clients c st = (Inr (), stop_and_clear c ?s2)"
    using assms by (auto simp: kill_one_def Let_def)
  show ?thesis
    unfolding k stop_and_clear_exact [OF t]
    by (simp add: emit_def removal_events_def)
qed

lemma kill_one_kept_exact:
  assumes "map_of (drivers st) c = Some d" "is_logged_in d" "c \<notin> set clients"
  shows "kill_one True clients c st = (Inr (), emit (IsLoggedIn (ident d)) st)"
  using assms by (simp add: kill_one_def)

lemma kill_one_quit_fails:
  assumes "map_of (drivers st) c = Some d" "\<not> quit d"
    and "\<not> is_logged_in d \<or> c \<in> set clients"
  shows "kill_one True clients c st =
           (Inl DriverError,
            st\<lparr>drivers := AList.delete c (drivers st),
               trace := trace st @ [IsLoggedIn (ident d), Quit (ident d)]\<rparr>)"
  using assms by (auto simp: kill_one_def Let_def emit_def)

lemma kill_loop_append:
  "kill_loop kd clients (xs @ ys) st =
     (case kill_loop kd clients xs st of
        (Inl e, s) \<Rightarrow> (Inl e, s)
      | (Inr u, s) \<Rightarrow> kill_loop kd clients ys s)"
  by (induction xs arbitrary: st) (auto split: prod.splits sum.splits)

lemma sweep_events_Cons:
  "map_of (drivers st) c = Some d \<Longrightarrow>
   sweep_events st (c # cs) =
     IsLoggedIn (ident d) # (if is_logged_in d then [] else removal_events st c d) @
     sweep_events st cs"
  by (simp add: sweep_events_def)

lemma sweep_events_cong:
  assumes "\<And>k. k \<in> set cs \<Longrightarrow> map_of (drivers s1) k = map_of (drivers st) k"
    and "\<And>k. k \<in> set cs \<Longrightarrow> semaphores s1 k = semaphores st k"
  shows "sweep_events s1 cs = sweep_events st cs"
  unfolding sweep_events_def
  by (rule arg_cong [where f = concat], rule map_cong)
     (auto simp: assms removal_events_def split: option.splits)

lemma kill_loop_sweep:
  assumes "distinct cs" and "distinct (map fst (drivers st))"
    and "\<forall>c \<in> set cs. c \<notin> set clients \<and>
           (\<exists>d. map_of (drivers st) c = Some d \<and>
                (\<not> is_logged_in d \<longrightarrow> quit d \<and> (\<exists>t. timers st c = Some (Ref t))))"
  shows "kill_loop True clients cs st =
           (Inr (),
            st\<lparr>drivers := filter (\<lambda>(k, d). k \<notin> set cs \<or> is_logged_in d) (drivers st),
               timers := (\<lambda>k. if k \<in> set cs \<and>
                                  (\<exists>d. map_of (drivers st) k = Some d \<and> \<not> is_logged_in d)
                               then Some PyNone else timers st k),
               semaphores := (\<lambda>k. if k \<in> set cs \<and>
                                  (\<exists>d. map_of (drivers st) k = Some d \<and> \<not> is_logged_in d)
                               then Some PyNone else semaphores st k),
               trace := trace st @ sweep_events st cs\<rparr>)"
  using assms
proof (induction cs arbitrary: st)
  case Nil
  then show ?case by (simp add: sweep_events_def)
next
  case (Cons c cs)
  from Cons.prems(3) obtain d where
    md: "map_of (drivers st) c = Some d" and nc: "c \<notin> set clients" and
    ok: "\<not> is_logged_in d \<longrightarrow> quit d \<and> (\<exists>t. timers st c = Some (Ref t))"
    by auto
  from Cons.prems(1) have cn: "c \<notin> set cs" and dcs: "distinct cs"
    by simp_all
  have only: "d' = d" if "(c, d') \<in> set (drivers st)" for d'
    using that md Cons.prems(2) by simp
  let ?dead = "\<lambda>s k. \<exists>d. map_of (drivers s) k = Some d \<and> \<not> is_logged_in d"
  let ?goal = "st\<lparr>drivers := filter (\<lambda>(k, d). k \<notin> set (c # cs) \<or> is_logged_in d) (drivers st),
               timers := (\<lambda>k. if k \<in> set (c # cs) \<and> ?dead st k
                               then Some PyNone else timers st k),
               semaphores := (\<lambda>k. if k \<in> set (c # cs) \<and> ?dead st k
                               then Some PyNone else semaphores st k),
               trace := trace st @ sweep_events st (c # cs)\<rparr>"
  obtain s1 where k: "kill_one True clients c st = (Inr (), s1)"
    and s1: "s1 = (if is_logged_in d then emit (IsLoggedIn (ident d)) st
                   else st\<lparr>drivers := AList.delete c (drivers st),
                          timers := (timers st)(c \<mapsto> PyNone),
                          semaphores := (semaphores st)(c \<mapsto> PyNone),
                          trace := trace st @ IsLoggedIn (ident d) # removal_events st c d\<rparr>)"
  proof (cases "is_logged_in d")
    case True
    with kill_one_kept_exact [OF md True nc] that show ?thesis by simp
  next
    case False
    with ok obtain t where "quit d" "timers st c = Some (Ref t)" by blast
    from kill_one_removed_exact [OF md this] False that show ?thesis by simp
  qed
  have dr1: "drivers s1 = (if is_logged_in d then drivers st else AList.delete c (drivers st))"
    and tm1: "timers s1 = (if is_logged_in d then timers st else (timers st)(c \<mapsto> PyNone))"
    and sm1: "semaphores s1 =
               (if is_logged_in d then semaphores st else (semaphores st)(c \<mapsto> PyNone))"
    and tr1: "trace s1 = trace st @ IsLoggedIn (ident d) #
               (if is_logged_in d then [] else removal_events st c d)"
    and ot1: "constructed s1 = constructed st" "directories s1 = directories st"
             "state.more s1 = state.more st"
    by (simp_all add: s1 emit_def)
  have m1: "map_of (drivers s1) k = map_of (drivers st) k" if "k \<noteq> c" for k
    using that by (simp add: dr1 delete_conv')
  have m2: "timers s1 k = timers st k" "semaphores s1 k = semaphores st k" if "k \<noteq> c" for k
    using that by (simp_all add: tm1 sm1)
  have p2: "distinct (map fst (drivers s1))"
    using Cons.prems(2) by (simp add: dr1 distinct_delete)
  have p3: "\<forall>c \<in> set cs. c \<notin> set clients \<and>
         (\<exists>d. map_of (drivers s1) c = Some d \<and>
              (\<not> is_logged_in d \<longrightarrow> quit d \<and> (\<exists>t. timers s1 c = Some (Ref t))))"
  proof
    fix k
    assume kc: "k \<in> set cs"
    with cn have ne: "k \<noteq> c" by auto
    from Cons.prems(3) kc show "k \<notin> set clients \<and>
         (\<exists>d. map_of (drivers s1) k = Some d \<and>
              (\<not> is_logged_in d \<longrightarrow> quit d \<and> (\<exists>t. timers s1 k = Some (Ref t))))"
      by (simp add: m1 [OF ne] m2 [OF ne])
  qed
  let ?res = "s1\<lparr>drivers := filter (\<lambda>(k, d). k \<notin> set cs \<or> is_logged_in d) (drivers s1),
               timers := (\<lambda>k. if k \<in> set cs \<and> ?dead s1 k then Some PyNone else timers s1 k),
               semaphores := (\<lambda>k. if k \<in> set cs \<and> ?dead s1 k
                               then Some PyNone else semaphores s1 k),
               trace := trace s1 @ sweep_events s1 cs\<rparr>"
  have ih: "kill_loop True clients cs s1 = (Inr (), ?res)"
    by (rule Cons.IH [OF dcs p2 p3])
  have ev: "sweep_events s1 cs = sweep_events st cs"
  proof (rule sweep_events_cong)
    fix k assume "k \<in> set cs"
    with cn have "k \<noteq> c" by auto
    then show "map_of (drivers s1) k = map_of (drivers st) k"
      and "semaphores s1 k = semaphores st k"
      by (simp_all add: m1 m2)
  qed
  have dead_c: "?dead st c \<longleftrightarrow> \<not> is_logged_in d"
    using md by simp
  have eq: "?res = ?goal"
  proof (rule state.equality)
    show "drivers ?res = drivers ?goal"
    proof (cases "is_logged_in d")
      case True
      have "filter (\<lambda>(k, d). k \<notin> set cs \<or> is_logged_in d) (drivers st) =
            filter (\<lambda>(k, d). k \<notin> set (c # cs) \<or> is_logged_in d) (drivers st)"
        by (rule filter_cong) (use only True in auto)
      with True show ?thesis by (simp add: dr1)
    next
      case False
      have "filter (\<lambda>(k, d). k \<notin> set cs \<or> is_logged_in d)
              (filter (\<lambda>(k, d). c \<noteq> k) (drivers st)) =
            filter (\<lambda>(k, d). k \<notin> set (c # cs) \<or> is_logged_in d) (drivers st)"
        unfolding filter_filter
        by (rule filter_cong) (use only False in auto)
      with False show ?thesis by (simp add: dr1 AList.delete_eq)
    qed
    show "timers ?res = timers ?goal"
    proof
      fix k
      show "timers ?res k = timers ?goal k"
      proof (cases "k = c")
        case True
        with cn dead_c show ?thesis by (simp add: tm1)
      next
        case ne: False
        with m1 [OF ne] m2 [OF ne] show ?thesis by auto
      qed
    qed
    show "semaphores ?res = semaphores ?goal"
    proof
      fix k
      show "semaphores ?res k = semaphores ?goal k"
      proof (cases "k = c")
        case True
        with cn dead_c show ?thesis by (simp add: sm1)
      next
        case ne: False
        with m1 [OF ne] m2 [OF ne] show ?thesis by auto
      qed
    qed
    show "trace ?res = trace ?goal"
      by (simp add: ev tr1 sweep_events_Cons [OF md])
  qed (simp_all add: ot1)
  have "kill_loop True clients (c # cs) st = kill_loop True clients cs s1"
    using k by simp
  with ih eq show ?case by simp
qed

lemma get_client_info_exact:
  assumes "get_client_info c st = (r, st')"
  shows "\<exists>is. st' = st\<lparr>trace := trace st @ map GetStatus is\<rparr>"
proof (cases "map_of (drivers st) c")
  case None
  with assms have "st' = st\<lparr>trace := trace st @ map GetStatus []\<rparr>"
    by (simp add: get_client_info_def)
  then show ?thesis by blast
next
  case (Some d)
  with assms have "st' = st\<lparr>trace := trace st @ map GetStatus [ident d]\<rparr>"
    by (auto simp: get_client_info_def Let_def emit_def split: option.splits)
  then show ?thesis by blast
qed

lemma client_infos_exact:
  "client_infos cs st = (r, st') \<Longrightarrow> \<exists>is. st' = st\<lparr>trace := trace st @ map GetStatus is\<rparr>"
proof (induction cs arbitrary: st r st')
  case Nil
  then have "st' = st\<lparr>trace := trace st @ map GetStatus []\<rparr>" by simp
  then show ?case by blast
next
  case (Cons c cs)
  obtain i s1 where g: "get_client_info c st = (i, s1)"
    by (cases "get_client_info c st")
  from get_client_info_exact [OF g] obtain js where
    s1: "s1 = st\<lparr>trace := trace st @ map GetStatus js\<rparr>" by blast
  show ?case
  proof (cases i)
    case (Inl e)
    with Cons.prems g have "st' = s1" by simp
    with s1 show ?thesis by blast
  next
    case (Inr v)
    obtain r2 s2 where c2: "client_infos cs s1 = (r2, s2)"
      by (cases "client_infos cs s1")
    from Cons.prems g Inr c2 have "st' = s2"
      by (auto split: sum.splits)
    moreover from Cons.IH [OF c2] obtain ks where
      "s2 = s1\<lparr>trace := trace s1 @ map GetStatus ks\<rparr>" by blast
    ultimately have "st' = st\<lparr>trace := trace st @ map GetStatus (js @ ks)\<rparr>"
      by (simp add: s1)
    then show ?thesis by blast
  qed
qed

lemma get_active_clients_exact:
  assumes "get_active_clients st = (r, st')"
  shows "\<exists>is. st' = st\<lparr>trace := trace st @ map GetStatus is\<rparr>"
proof (cases "drivers st = []")
  case True
  with assms have "st' = st\<lparr>trace := trace st @ map GetStatus []\<rparr>"
    by (simp add: get_active_clients_def)
  then show ?thesis by blast
next
  case False
  obtain r2 s2 where c2: "client_infos (map fst (drivers st)) st = (r2, s2)"
    by (cases "client_infos (map fst (drivers st)) st")
  from assms False c2 have "st' = s2"
    by (auto simp: get_active_clients_def split: sum.splits)
  with client_infos_exact [OF c2] show ?thesis by simp
qed

lemma client_infos_ok:
  "\<forall>c \<in> set cs. map_of (drivers st) c \<noteq> None \<and> timers st c \<noteq> None \<Longrightarrow>
   \<exists>r st'. client_infos cs st = (Inr r, st')"
proof (induction cs arbitrary: st)
  case Nil
  then show ?case by simp
next
  case (Cons c cs)
  from Cons.prems obtain d tm where
    d: "map_of (drivers st) c = Some d" and tm: "timers st c = Some tm"
    by auto
  then obtain i s1 where g: "get_client_info c st = (Inr i, s1)"
    by (simp add: get_client_info_def Let_def)
  from get_client_info_keeps [OF g] Cons.prems
  have "\<forall>c \<in> set cs. map_of (drivers s1) c \<noteq> None \<and> timers s1 c \<noteq> None"
    by simp
  from Cons.IH [OF this] obtain r s2 where "client_infos cs s1 = (Inr r, s2)"
    by blast
  with g show ?case by simp
qed

section \<open>Requests without a client id\<close>

text \<open>
  Claim C10. \<open>acquire_semaphore\<close> with a client id that is \<open>None\<close> or empty returns
  \<open>False\<close> and leaves the state as it was, and so does \<open>release_semaphore\<close>. Hence a
  request that carries no \<open>client-id\<close> header goes through \<open>before_request\<close> with the
  state unchanged, no semaphore created, acquired or released; \<open>after_request\<close> then
  releases nothing, whatever the state the view function left; and such a request on an
  \<open>/admin\<close> rule whose key is accepted is let through to its view function.
\<close>

theorem no_client_id_no_lock:
  assumes "\<not> truthy cid" and "headers req ''client-id'' = cid"
  shows "acquire_semaphore cid cancel st = (Inr False, st) \<and>
         release_semaphore cid st = (Inr (Some False), st) \<and>
         (\<exists>r gc. before_request cfg req st = (r, gc, st) \<and>
            after_request gc st2 = (Inr (), st2) \<and>
            (url_rule req = Some rule \<and> rule_parent_of rule = Inr ''admin'' \<and>
             \<not> (truthy (API_KEY cfg) \<and> headers req ''auth-key'' \<noteq> API_KEY cfg)
             \<longrightarrow> r = Inr ()))"
proof -
  obtain r gc st' where b: "before_request cfg req st = (r, gc, st')"
    by (cases "before_request cfg req st")
  from assms b have "st' = st"
    by (auto simp: before_request_def acquire_falsy Let_def
             split: option.splits sum.splits if_splits)
  moreover from assms b have "after_request gc st2 = (Inr (), st2)"
    by (auto simp: before_request_def after_request_def acquire_falsy Let_def
             split: option.splits sum.splits if_splits)
  moreover from assms b have
    "url_rule req = Some rule \<and> rule_parent_of rule = Inr ''admin'' \<and>
     \<not> (truthy (API_KEY cfg) \<and> headers req ''auth-key'' \<noteq> API_KEY cfg) \<longrightarrow> r = Inr ()"
    by (auto simp: before_request_def acquire_falsy Let_def
             split: option.splits sum.splits if_splits)
  ultimately show ?thesis
    using assms(1) b by (simp add: acquire_falsy release_falsy)
qed

theorem no_client_id_no_lock_witness:
  "\<not> truthy None \<and>
   headers (example_request ''/admin/clients'' None) ''client-id'' = None \<and>
   acquire_semaphore None False (example_state [] [] [''a'' \<mapsto> Ref 1]) =
     (Inr False, example_state [] [] [''a'' \<mapsto> Ref 1]) \<and>
   release_semaphore None (example_state [] [] [''a'' \<mapsto> Ref 1]) =
     (Inr (Some False), example_state [] [] [''a'' \<mapsto> Ref 1]) \<and>
   fst (before_request example_config (example_request ''/admin/clients'' None)
          (example_state [] [] [''a'' \<mapsto> Ref 1])) = Inr ()"
proof -
  have h1: "\<not> truthy None"
    by (simp add: truthy_def)
  have h2: "headers (example_request ''/admin/clients'' None) ''client-id'' = None"
    by (simp add: example_request_def)
  have h3: "url_rule (example_request ''/admin/clients'' None) = Some ''/admin/clients'' \<and>
            rule_parent_of ''/admin/clients'' = Inr ''admin'' \<and>
            \<not> (truthy (API_KEY example_config) \<and>
               headers (example_request ''/admin/clients'' None) ''auth-key''
                 \<noteq> API_KEY example_config)"
    by (simp add: example_request_def example_config_def rule_parent_of_def truthy_def)
  from no_client_id_no_lock [OF h1 h2, of False "example_state [] [] [''a'' \<mapsto> Ref 1]"
      example_config _ "''/admin/clients''"] h3
  have "acquire_semaphore None False (example_state [] [] [''a'' \<mapsto> Ref 1]) =
          (Inr False, example_state [] [] [''a'' \<mapsto> Ref 1]) \<and>
        release_semaphore None (example_state [] [] [''a'' \<mapsto> Ref 1]) =
          (Inr (Some False), example_state [] [] [''a'' \<mapsto> Ref 1]) \<and>
        (\<exists>gc. before_request example_config (example_request ''/admin/clients'' None)
                (example_state [] [] [''a'' \<mapsto> Ref 1]) =
              (Inr (), gc, example_state [] [] [''a'' \<mapsto> Ref 1]))"
    by blast
  with h1 h2 show ?thesis
    by (metis fst_conv)
qed

section \<open>The registry\<close>

text \<open>
  Claim C7. When a call of \<open>init_client\<close> returns a driver, a second call made in the
  state the first one left returns the same driver object and changes nothing: it does
  not construct. The first call runs the constructor at most once and stores the driver
  it returns under the client id.
\<close>

theorem init_client_twice:
  assumes "init_client cfg c st = (Inr d, st1)"
  shows "init_client cfg c st1 = (Inr d, st1) \<and>
         constructed st1 \<le> constructed st + 1 \<and>
         map_of (drivers st1) c = Some d"
  using assms
  by (auto simp: init_client_def init_driver_def Let_def update_conv'
           split: option.splits sum.splits if_splits prod.splits)

theorem init_client_twice_witness:
  "fst (init_client example_config ''a'' (example_state [] [] Map.empty)) =
     Inr (example_driver 0 NotLoggedIn True (Some [])) \<and>
   init_client example_config ''a''
     (snd (init_client example_config ''a'' (example_state [] [] Map.empty))) =
     (Inr (example_driver 0 NotLoggedIn True (Some [])),
      snd (init_client example_config ''a'' (example_state [] [] Map.empty))) \<and>
   constructed (snd (init_client example_config ''a'' (example_state [] [] Map.empty))) = 1"
proof -
  have h: "init_client example_config ''a'' (example_state [] [] Map.empty) =
      (Inr (example_driver 0 NotLoggedIn True (Some [])),
       snd (init_client example_config ''a'' (example_state [] [] Map.empty)))"
    by (simp add: init_client_def init_driver_def example_config_def example_state_def
          example_driver_def Let_def)
  have k: "constructed (snd (init_client example_config ''a'' (example_state [] [] Map.empty))) = 1"
    by (simp add: init_client_def init_driver_def example_config_def example_state_def
          example_driver_def Let_def)
  from h have f: "fst (init_client example_config ''a'' (example_state [] [] Map.empty)) =
      Inr (example_driver 0 NotLoggedIn True (Some []))"
    by (metis fst_conv)
  from init_client_twice [OF h] f k show ?thesis by blast
qed

section \<open>The poll callback and the lock\<close>

text \<open>
  Claim C3. Take a firing of \<open>check_new_messages\<close> that passes the check of lines 216
  to 220 and whose \<open>acquire_semaphore\<close> returns \<open>True\<close>, leaving the state \<open>st2\<close>. When
  the fetch and every mark-seen call return, the callback returns with \<open>release\<close> called
  twice on the client's semaphore (line 235 and line 243): the trace holds two more
  \<open>SemRelease\<close> events than \<open>st2\<close>, and the counter ends two above its value in \<open>st2\<close>, that
  is one above its value before the firing. (On the paths where the fetch or a mark-seen
  call raises the release happens once: \<open>poll_error_releases_once\<close>.)
\<close>

theorem poll_releases_twice:
  assumes "map_of (drivers st) c = Some d" and "is_logged_in d"
    and "acquire_semaphore (Some c) True (emit (IsLoggedIn (ident d)) st) = (Inr True, st2)"
    and "get_unread d = Some res" and "\<forall>m \<in> set res. send_seen m"
  shows "\<exists>st' v. check_new_messages c st = (Inr (), st') \<and>
           semaphores st2 c = Some (Ref v) \<and> semaphores st' c = Some (Ref (v + 2)) \<and>
           count_list (trace st') (SemRelease c) = count_list (trace st2) (SemRelease c) + 2"
proof -
  from acquire_TrueD [OF assms(3)] obtain v where
    c: "c \<noteq> []" and d: "drivers st2 = drivers st" and v: "semaphores st2 c = Some (Ref v)"
    by auto
  show ?thesis
    using assms c d v
    by (simp add: check_new_messages_def poll_body_def send_seen_all_ok release_object Let_def)
qed

theorem poll_releases_twice_witness:
  "map_of (drivers (example_state
      [(''a'', example_driver 0 LoggedIn True (Some [MessageGroup True]))] [''a'']
      [''a'' \<mapsto> Ref 1])) ''a'' =
     Some (example_driver 0 LoggedIn True (Some [MessageGroup True])) \<and>
   is_logged_in (example_driver 0 LoggedIn True (Some [MessageGroup True])) \<and>
   fst (acquire_semaphore (Some ''a'') True
     (emit (IsLoggedIn 0) (example_state
        [(''a'', example_driver 0 LoggedIn True (Some [MessageGroup True]))] [''a'']
        [''a'' \<mapsto> Ref 1]))) = Inr True \<and>
   send_seen (MessageGroup True) \<and>
   fst (check_new_messages ''a'' (example_state
      [(''a'', example_driver 0 LoggedIn True (Some [MessageGroup True]))] [''a'']
      [''a'' \<mapsto> Ref 1])) = Inr () \<and>
   semaphores (snd (check_new_messages ''a'' (example_state
      [(''a'', example_driver 0 LoggedIn True (Some [MessageGroup True]))] [''a'']
      [''a'' \<mapsto> Ref 1]))) ''a'' = Some (Ref 2) \<and>
   count_list (trace (snd (check_new_messages ''a'' (example_state
      [(''a'', example_driver 0 LoggedIn True (Some [MessageGroup True]))] [''a'']
      [''a'' \<mapsto> Ref 1])))) (SemRelease ''a'') = 2"
proof -
  let ?d = "example_driver 0 LoggedIn True (Some [MessageGroup True])"
  let ?st = "example_state [(''a'', ?d)] [''a''] [''a'' \<mapsto> Ref 1]"
  let ?st2 = "snd (acquire_semaphore (Some ''a'') True (emit (IsLoggedIn (ident ?d)) ?st))"
  have i: "ident ?d = 0"
    by (simp add: example_driver_def)
  have h1: "map_of (drivers ?st) ''a'' = Some ?d"
    by (simp add: example_state_def)
  have h2: "is_logged_in ?d"
    by (simp add: example_driver_def)
  have h3: "acquire_semaphore (Some ''a'') True (emit (IsLoggedIn (ident ?d)) ?st) =
      (Inr True, ?st2)"
    by (simp add: acquire_semaphore_def Semaphore_acquire_def example_state_def)
  have h4: "get_unread ?d = Some [MessageGroup True]"
    by (simp add: example_driver_def)
  have h5: "\<forall>m \<in> set [MessageGroup True]. send_seen m"
    by simp
  have s2: "semaphores ?st2 ''a'' = Some (Ref 0)"
    by (simp add: acquire_semaphore_def Semaphore_acquire_def example_state_def)
  have t2: "count_list (trace ?st2) (SemRelease ''a'') = 0"
    by (simp add: acquire_semaphore_def Semaphore_acquire_def example_state_def)
  from poll_releases_twice [OF h1 h2 h3 h4 h5] obtain st' v where
    r: "check_new_messages ''a'' ?st = (Inr (), st')" and
    v: "semaphores ?st2 ''a'' = Some (Ref v)" "semaphores st' ''a'' = Some (Ref (v + 2))" and
    n: "count_list (trace st') (SemRelease ''a'') =
        count_list (trace ?st2) (SemRelease ''a'') + 2"
    by blast
  from v s2 have v0: "semaphores st' ''a'' = Some (Ref 2)"
    by simp
  from h3 have a: "fst (acquire_semaphore (Some ''a'') True (emit (IsLoggedIn 0) ?st)) = Inr True"
    unfolding i by (metis fst_conv)
  from r have r1: "fst (check_new_messages ''a'' ?st) = Inr ()"
    and r2: "snd (check_new_messages ''a'' ?st) = st'"
    by simp_all
  show ?thesis
    using h1 h2 a r1 v0 n t2 unfolding r2 by simp
qed

text \<open>
  Claim C4. \<open>release_semaphore\<close> on a lock that nobody holds (its counter is positive, so
  an acquire would succeed) does not raise, yet it is not a no-op: the counter goes up by
  one, and two acquires that follow with no release in between both return \<open>True\<close>.
\<close>

theorem release_unheld_raises_counter:
  assumes "c \<noteq> []" and "semaphores st c = Some (Ref (Suc n))"
  shows "\<exists>st1 st2 st3.
           release_semaphore (Some c) st = (Inr None, st1) \<and>
           semaphores st1 c = Some (Ref (Suc (Suc n))) \<and>
           acquire_semaphore (Some c) b1 st1 = (Inr True, st2) \<and>
           acquire_semaphore (Some c) b2 st2 = (Inr True, st3)"
  using assms by (simp add: release_object acquire_free)

theorem release_unheld_raises_counter_witness:
  "''a'' \<noteq> [] \<and>
   semaphores (example_state [] [] [''a'' \<mapsto> Ref 1]) ''a'' = Some (Ref (Suc 0)) \<and>
   (\<exists>st1 st2 st3.
      release_semaphore (Some ''a'') (example_state [] [] [''a'' \<mapsto> Ref 1]) = (Inr None, st1) \<and>
      semaphores st1 ''a'' = Some (Ref 2) \<and>
      acquire_semaphore (Some ''a'') False st1 = (Inr True, st2) \<and>
      acquire_semaphore (Some ''a'') False st2 = (Inr True, st3))"
proof -
  have h1: "''a'' \<noteq> []"
    by simp
  have h2: "semaphores (example_state [] [] [''a'' \<mapsto> Ref 1]) ''a'' = Some (Ref (Suc 0))"
    by (simp add: example_state_def)
  from release_unheld_raises_counter [OF h1 h2, of False False] h1 h2
  show ?thesis
    by (simp add: numeral_2_eq_2)
qed

section \<open>The request gate\<close>

text \<open>
  Claim C1. For a request outside \<open>/admin\<close> whose client has a registered driver that
  reports a status other than \<open>NotLoggedIn\<close> and \<open>LoggedIn\<close>, \<open>before_request\<close> calls
  \<open>init_client\<close>, which finds the key present and hands the registered driver back. The
  registry is left as it was, no driver is constructed, and the two status queries of the
  request both go to the driver that was registered before the request, which is also the
  driver the view function gets in \<open>g.driver\<close>.
\<close>

theorem self_heal_keeps_driver:
  assumes "client_request cfg req c"
    and "map_of (drivers st) c = Some d"
    and "get_status d \<noteq> NotLoggedIn" and "get_status d \<noteq> LoggedIn"
    and "semaphores st c \<noteq> Some PyNone"
  shows "\<exists>gc st'. before_request cfg req st = (Inr (), gc, st') \<and>
           drivers st' = drivers st \<and> constructed st' = constructed st \<and>
           g_driver gc = Some d \<and>
           filter is_driver_call (trace st') =
             filter is_driver_call (trace st) @ [GetStatus (ident d), GetStatus (ident d)]"
proof -
  from assms(1) have c: "c \<noteq> []" by (simp add: client_request_def)
  from acquire_not_cleared [OF c assms(5), of False] obtain b st1 where
    a: "acquire_semaphore (Some c) False st = (Inr b, st1)" and
    k: "drivers st1 = drivers st" "constructed st1 = constructed st"
       "filter is_driver_call (trace st1) = filter is_driver_call (trace st)"
    by blast
  from assms(2) k(1) have "map_of (drivers st1) c = Some d" by simp
  then show ?thesis
    using assms(3,4) a k
    by (simp add: before_request_client [OF assms(1)] session_step_registered)
qed

theorem self_heal_keeps_driver_witness:
  "client_request example_config (example_request ''/chats'' (Some ''a'')) ''a'' \<and>
   map_of (drivers (example_state [(''a'', example_driver 0 Unknown True None)] [''a'']
       [''a'' \<mapsto> Ref 1])) ''a'' = Some (example_driver 0 Unknown True None) \<and>
   get_status (example_driver 0 Unknown True None) = Unknown \<and>
   (\<exists>gc st'. before_request example_config (example_request ''/chats'' (Some ''a''))
        (example_state [(''a'', example_driver 0 Unknown True None)] [''a'']
           [''a'' \<mapsto> Ref 1]) = (Inr (), gc, st') \<and>
      drivers st' = [(''a'', example_driver 0 Unknown True None)] \<and>
      constructed st' = 1 \<and>
      g_driver gc = Some (example_driver 0 Unknown True None) \<and>
      filter is_driver_call (trace st') = [GetStatus 0, GetStatus 0])"
proof -
  let ?d = "example_driver 0 Unknown True None"
  let ?st = "example_state [(''a'', ?d)] [''a''] [''a'' \<mapsto> Ref 1]"
  let ?rq = "example_request ''/chats'' (Some ''a'')"
  have h1: "client_request example_config ?rq ''a''"
    by (simp add: client_request_def example_request_def example_config_def
          rule_parent_of_def truthy_def)
  have h2: "map_of (drivers ?st) ''a'' = Some ?d"
    by (simp add: example_state_def)
  have h3: "get_status ?d \<noteq> NotLoggedIn" and h4: "get_status ?d \<noteq> LoggedIn"
    and h6: "get_status ?d = Unknown"
    by (simp_all add: example_driver_def)
  have h5: "semaphores ?st ''a'' \<noteq> Some PyNone"
    by (simp add: example_state_def)
  have e: "drivers ?st = [(''a'', ?d)]" "constructed ?st = 1" "trace ?st = []" "ident ?d = 0"
    by (simp_all add: example_state_def example_driver_def)
  from self_heal_keeps_driver [OF h1 h2 h3 h4 h5] h1 h2 h6
  show ?thesis
    unfolding e by simp
qed

text \<open>
  Claim C5. A request outside \<open>/admin\<close> for a registered client whose semaphore is
  exhausted: \<open>acquire_semaphore\<close> returns \<open>False\<close> when the wait of 10 expires, and
  \<open>before_request\<close> drops that value and returns normally, so Flask goes on to the view
  function; no busy outcome is produced. \<open>after_request\<close> then releases the semaphore
  the request never acquired.
\<close>

theorem timeout_is_dropped:
  assumes "client_request cfg req c"
    and "map_of (drivers st) c = Some d"
    and "semaphores st c = Some (Ref 0)"
  shows "fst (acquire_semaphore (Some c) False st) = Inr False \<and>
         (\<exists>gc st' st''. before_request cfg req st = (Inr (), gc, st') \<and>
            semaphores st' c = Some (Ref 0) \<and>
            after_request gc st' = (Inr (), st'') \<and>
            semaphores st'' c = Some (Ref 1))"
proof -
  from assms(1) have c: "c \<noteq> []" by (simp add: client_request_def)
  show ?thesis
    using assms(2,3) c
    by (simp add: before_request_client [OF assms(1)] acquire_busy session_step_registered
          after_request_def truthy_def release_object)
qed

theorem timeout_is_dropped_witness:
  "client_request example_config (example_request ''/chats'' (Some ''a'')) ''a'' \<and>
   semaphores (example_state [(''a'', example_driver 0 LoggedIn True (Some []))] [''a'']
       [''a'' \<mapsto> Ref 0]) ''a'' = Some (Ref 0) \<and>
   fst (acquire_semaphore (Some ''a'') False
     (example_state [(''a'', example_driver 0 LoggedIn True (Some []))] [''a'']
       [''a'' \<mapsto> Ref 0])) = Inr False \<and>
   fst (before_request example_config (example_request ''/chats'' (Some ''a''))
     (example_state [(''a'', example_driver 0 LoggedIn True (Some []))] [''a'']
       [''a'' \<mapsto> Ref 0])) = Inr ()"
proof -
  let ?d = "example_driver 0 LoggedIn True (Some [])"
  let ?st = "example_state [(''a'', ?d)] [''a''] [''a'' \<mapsto> Ref 0]"
  let ?rq = "example_request ''/chats'' (Some ''a'')"
  have h1: "client_request example_config ?rq ''a''"
    by (simp add: client_request_def example_request_def example_config_def
          rule_parent_of_def truthy_def)
  have h2: "map_of (drivers ?st) ''a'' = Some ?d"
    by (simp add: example_state_def)
  have h3: "semaphores ?st ''a'' = Some (Ref 0)"
    by (simp add: example_state_def)
  from timeout_is_dropped [OF h1 h2 h3] obtain gc st' where
    a: "fst (acquire_semaphore (Some ''a'') False ?st) = Inr False" and
    b: "before_request example_config ?rq ?st = (Inr (), gc, st')"
    by blast
  from b have "fst (before_request example_config ?rq ?st) = Inr ()"
    by simp
  with h1 h3 a show ?thesis
    by blast
qed

section \<open>The lock table after an admin kill\<close>

text \<open>
  Claim C9. When the loop of \<open>kill_clients\<close> removes a client that has a timer, it
  leaves \<open>None\<close> under the client's key in \<open>semaphores\<close>; the key stays in the table. The
  next \<open>acquire_semaphore\<close> for that client finds the key present, creates no semaphore,
  and raises \<open>AttributeError\<close> on \<open>None.acquire\<close>; so does the \<open>before_request\<close> of the
  client's next request.
\<close>

theorem killed_client_cannot_lock:
  assumes "client_request cfg req c"
    and "map_of (drivers st) c = Some d" and "quit d" and "timers st c = Some (Ref t)"
    and "kill_dead \<and> \<not> is_logged_in d \<or> c \<in> set clients"
  shows "\<exists>st'. kill_one kill_dead clients c st = (Inr (), st') \<and>
           semaphores st' c = Some PyNone \<and>
           acquire_semaphore (Some c) cancel st' = (Inl AttributeError, st') \<and>
           fst (before_request cfg req st') = Inl AttributeError"
proof -
  from assms(1) have c: "c \<noteq> []" by (simp add: client_request_def)
  from kill_one_removed [OF assms(2-5)] obtain st' where
    k: "kill_one kill_dead clients c st = (Inr (), st')" and
    s: "semaphores st' = (semaphores st)(c \<mapsto> PyNone)"
    by blast
  from s have n: "semaphores st' c = Some PyNone" by simp
  show ?thesis
    using k n c
    by (simp add: before_request_client [OF assms(1)] acquire_cleared)
qed

theorem killed_client_cannot_lock_witness:
  "client_request example_config (example_request ''/chats'' (Some ''a'')) ''a'' \<and>
   quit (example_driver 0 LoggedIn True (Some [])) \<and>
   ''a'' \<in> set [''a''] \<and>
   (\<exists>st'. kill_one False [''a''] ''a''
        (example_state [(''a'', example_driver 0 LoggedIn True (Some []))] [''a'']
           [''a'' \<mapsto> Ref 1]) = (Inr (), st') \<and>
      semaphores st' ''a'' = Some PyNone \<and>
      acquire_semaphore (Some ''a'') False st' = (Inl AttributeError, st') \<and>
      fst (before_request example_config (example_request ''/chats'' (Some ''a'')) st') =
        Inl AttributeError)"
proof -
  let ?d = "example_driver 0 LoggedIn True (Some [])"
  let ?st = "example_state [(''a'', ?d)] [''a''] [''a'' \<mapsto> Ref 1]"
  let ?rq = "example_request ''/chats'' (Some ''a'')"
  have h1: "client_request example_config ?rq ''a''"
    by (simp add: client_request_def example_request_def example_config_def
          rule_parent_of_def truthy_def)
  have h2: "map_of (drivers ?st) ''a'' = Some ?d"
    by (simp add: example_state_def)
  have h3: "quit ?d"
    by (simp add: example_driver_def)
  have h4: "timers ?st ''a'' = Some (Ref \<lparr>interval = 2, args = ''a'', is_running = True\<rparr>)"
    by (simp add: example_state_def)
  have h5: "False \<and> \<not> is_logged_in ?d \<or> ''a'' \<in> set [''a'']"
    by simp
  from killed_client_cannot_lock [OF h1 h2 h3 h4 h5, of False] h1 h3
  show ?thesis
    by simp
qed

section \<open>Two holders of one lock\<close>

text \<open>
  Claim C2. One schedule of three steps for a single client whose lock is free (counter 1):
  the poll callback fires and runs to its end, then the \<open>before_request\<close> of one request
  runs, then the \<open>before_request\<close> of a second request, with no \<open>after_request\<close> in
  between. The callback's two releases leave the counter at 2, so both requests acquire
  the semaphore with \<open>True\<close> and both go on to their view functions: two execution units
  hold the client's lock at the same time.
\<close>

theorem two_holders_after_poll:
  assumes "client_request cfg req1 c" and "client_request cfg req2 c"
    and "map_of (drivers st) c = Some d" and "is_logged_in d"
    and "semaphores st c = Some (Ref 1)"
    and "get_unread d = Some res" and "\<forall>m \<in> set res. send_seen m"
  shows "\<exists>st1 g1 st2 g2 st3.
           check_new_messages c st = (Inr (), st1) \<and>
           before_request cfg req1 st1 = (Inr (), g1, st2) \<and>
           before_request cfg req2 st2 = (Inr (), g2, st3) \<and>
           filter is_lock_call (trace st3) =
             filter is_lock_call (trace st) @
               [SemAcquire c 0 True, SemRelease c, SemRelease c,
                SemAcquire c 10 True, SemAcquire c 10 True]"
proof -
  from assms(1) have c: "c \<noteq> []" by (simp add: client_request_def)
  from assms(5) have s: "semaphores st c = Some (Ref (Suc 0))" by simp
  from poll_success [OF c assms(3,4) s assms(6,7)] obtain st1 where
    p: "check_new_messages c st = (Inr (), st1)" and
    p1: "drivers st1 = drivers st" "semaphores st1 c = Some (Ref (Suc (Suc 0)))"
      "filter is_lock_call (trace st1) =
         filter is_lock_call (trace st) @ [SemAcquire c 0 True, SemRelease c, SemRelease c]"
    by blast
  from assms(3) p1(1) have d1: "map_of (drivers st1) c = Some d" by simp
  from before_request_free [OF assms(1) d1 p1(2)] obtain g1 st2 where
    q: "before_request cfg req1 st1 = (Inr (), g1, st2)" and
    q1: "drivers st2 = drivers st1" "semaphores st2 c = Some (Ref (Suc 0))"
      "filter is_lock_call (trace st2) = filter is_lock_call (trace st1) @ [SemAcquire c 10 True]"
    by blast
  from d1 q1(1) have d2: "map_of (drivers st2) c = Some d" by simp
  from before_request_free [OF assms(2) d2 q1(2)] obtain g2 st3 where
    r: "before_request cfg req2 st2 = (Inr (), g2, st3)" and
    r1: "filter is_lock_call (trace st3) = filter is_lock_call (trace st2) @ [SemAcquire c 10 True]"
    by blast
  from p q r p1(3) q1(3) r1 show ?thesis
    by simp
qed

theorem two_holders_after_poll_witness:
  "client_request example_config (example_request ''/chats'' (Some ''a'')) ''a'' \<and>
   client_request example_config (example_request ''/screen'' (Some ''a'')) ''a'' \<and>
   semaphores (example_state [(''a'', example_driver 0 LoggedIn True (Some []))] [''a'']
       [''a'' \<mapsto> Ref 1]) ''a'' = Some (Ref 1) \<and>
   (\<exists>st1 g1 st2 g2 st3.
      check_new_messages ''a''
        (example_state [(''a'', example_driver 0 LoggedIn True (Some []))] [''a'']
           [''a'' \<mapsto> Ref 1]) = (Inr (), st1) \<and>
      before_request example_config (example_request ''/chats'' (Some ''a'')) st1 =
        (Inr (), g1, st2) \<and>
      before_request example_config (example_request ''/screen'' (Some ''a'')) st2 =
        (Inr (), g2, st3) \<and>
      filter is_lock_call (trace st3) =
        [SemAcquire ''a'' 0 True, SemRelease ''a'', SemRelease ''a'',
         SemAcquire ''a'' 10 True, SemAcquire ''a'' 10 True])"
proof -
  let ?d = "example_driver 0 LoggedIn True (Some [])"
  let ?st = "example_state [(''a'', ?d)] [''a''] [''a'' \<mapsto> Ref 1]"
  have h1: "client_request example_config (example_request ''/chats'' (Some ''a'')) ''a''"
    by (simp add: client_request_def example_request_def example_config_def
          rule_parent_of_def truthy_def)
  have h2: "client_request example_config (example_request ''/screen'' (Some ''a'')) ''a''"
    by (simp add: client_request_def example_request_def example_config_def
          rule_parent_of_def truthy_def)
  have h3: "map_of (drivers ?st) ''a'' = Some ?d"
    by (simp add: example_state_def)
  have h4: "is_logged_in ?d"
    by (simp add: example_driver_def)
  have h5: "semaphores ?st ''a'' = Some (Ref 1)"
    by (simp add: example_state_def)
  have h6: "get_unread ?d = Some []"
    by (simp add: example_driver_def)
  have h7: "\<forall>m \<in> set []. send_seen m"
    by simp
  have e: "trace ?st = []"
    by (simp add: example_state_def)
  from two_holders_after_poll [OF h1 h2 h3 h4 h5 h6 h7] h1 h2 h5
  show ?thesis
    unfolding e by simp
qed

section \<open>Removing one client\<close>

text \<open>
  Claim C8. The removal the claim describes is never run. Whenever the view of
  \<open>DELETE /client\<close> is entered (\<open>before_request\<close> has assigned \<open>g.client_id\<close> by then),
  its call on line 442 reaches the view itself, which takes no argument, and raises
  \<open>TypeError\<close>: the error reaches the caller and the state is as before, with the
  registry entry, the timer, the lock and the working directory of the client all in
  place, whether the client is registered or not and whatever \<open>preserve_cache\<close> says.
\<close>

theorem delete_client_never_removes:
  assumes "g_client_id gc = Some cid"
  shows "delete_client cfg req gc st = (Inl TypeError, st)"
  using assms
  by (simp add: delete_client_def delete_client_binding_def delete_client_definitions_def)

theorem delete_client_never_removes_witness:
  "g_client_id \<lparr>g_client_id = Some (Some ''a''), g_driver = None, g_driver_status = None\<rparr>
     = Some (Some ''a'') \<and>
   delete_client example_config (example_request ''/client'' (Some ''a''))
     \<lparr>g_client_id = Some (Some ''a''), g_driver = None, g_driver_status = None\<rparr>
     (example_state [(''a'', example_driver 0 LoggedIn True (Some []))] [''a'']
        [''a'' \<mapsto> Ref 0])
     = (Inl TypeError,
        example_state [(''a'', example_driver 0 LoggedIn True (Some []))] [''a'']
          [''a'' \<mapsto> Ref 0])"
proof -
  have h: "g_client_id \<lparr>g_client_id = Some (Some ''a''), g_driver = None,
      g_driver_status = None\<rparr> = Some (Some ''a'')"
    by simp
  from delete_client_never_removes [OF h] h show ?thesis
    by blast
qed

section \<open>The kill-dead sweep\<close>

text \<open>
  Claim C6, as stated, fails on \<open>kill_clients\<close>: \<open>quit()\<close> is called outside the
  \<open>try\<close> block, so a driver whose \<open>quit()\<close> raises ends the sweep. Here \<open>a\<close> and \<open>b\<close>
  are both registered and not logged in, the \<open>clients\<close> field is empty and \<open>kill_dead\<close>
  is \<open>true\<close>; the request ends with the error of \<open>a\<close>'s driver and \<open>b\<close> is still
  registered.
\<close>

theorem kill_dead_sweep_aborts:
  "fst (kill_clients (example_kill_request (Some []) (Some ''true''))
         (example_state
            [(''a'', example_driver 0 NotLoggedIn False (Some [])),
             (''b'', example_driver 1 NotLoggedIn True (Some []))]
            [''a'', ''b''] [''a'' \<mapsto> Ref 1, ''b'' \<mapsto> Ref 1]))
     = Inl DriverError \<and>
   map_of (drivers (snd (kill_clients (example_kill_request (Some []) (Some ''true''))
         (example_state
            [(''a'', example_driver 0 NotLoggedIn False (Some [])),
             (''b'', example_driver 1 NotLoggedIn True (Some []))]
            [''a'', ''b''] [''a'' \<mapsto> Ref 1, ''b'' \<mapsto> Ref 1])))) ''b''
     = Some (example_driver 1 NotLoggedIn True (Some [])) \<and>
   \<not> is_logged_in (example_driver 1 NotLoggedIn True (Some []))"
  by (simp add: kill_clients_def kill_one_def example_kill_request_def example_state_def
        example_driver_def Let_def)

text \<open>
  Claim C6, amended. Let \<open>kill_clients\<close> run with the query argument \<open>kill_dead\<close> equal to
  \<open>true\<close> or \<open>1\<close> and a \<open>clients\<close> field that is sent and names no registered client
  (the empty field names the empty id only). The registry is a dictionary, so its keys
  are distinct.

  First part: when \<open>quit()\<close> returns for every registered client that is not logged in
  and each of them has a timer object, the request ends in exactly this state. The
  registry holds the logged-in clients, in their order. For every client that was not
  logged in, the timer table and the lock table hold \<open>None\<close> under its key; every other
  key of the two tables, those of the logged-in clients among them, holds what it held.
  The calls made are those of \<open>sweep_events\<close>, that is \<open>is_logged_in()\<close> on every
  driver and \<open>quit()\<close>, the timer's cancellation and the release of the lock for the
  clients that are not logged in and for no other, followed by the status queries of the
  listing. Nothing else changes. The listing is returned when every logged-in client has
  a timer entry.

  Second part: a \<open>quit()\<close> that raises ends the sweep at that client. When \<open>c\<close> is the
  first registered client that is not logged in and whose \<open>quit()\<close> raises, the request
  ends with the driver's error; the clients before \<open>c\<close> have been handled as in the
  first part; the registry entry of \<open>c\<close> is dropped after \<open>quit()\<close> was called on it,
  while its timer and lock entries are as before; the clients after \<open>c\<close> are untouched,
  logged in or not, and no listing is made.
\<close>

theorem kill_dead_sweep:
  assumes "distinct (map fst (drivers st))"
    and "form req ''clients'' = Some s"
    and "\<forall>c \<in> set (str_split CHR '','' s). map_of (drivers st) c = None"
    and "args req ''kill_dead'' = Some v" and "v = ''true'' \<or> v = ''1''"
  shows
    "((\<forall>(c, d) \<in> set (drivers st).
         \<not> is_logged_in d \<longrightarrow> quit d \<and> (\<exists>t. timers st c = Some (Ref t))) \<longrightarrow>
      (\<exists>r qs.
         kill_clients req st =
           (r, st\<lparr>drivers := filter (\<lambda>(c, d). is_logged_in d) (drivers st),
                  timers := (\<lambda>k. if \<exists>d. map_of (drivers st) k = Some d \<and> \<not> is_logged_in d
                                  then Some PyNone else timers st k),
                  semaphores := (\<lambda>k. if \<exists>d. map_of (drivers st) k = Some d \<and> \<not> is_logged_in d
                                  then Some PyNone else semaphores st k),
                  trace := trace st @ sweep_events st (map fst (drivers st)) @
                           map GetStatus qs\<rparr>) \<and>
         ((\<forall>(c, d) \<in> set (drivers st). is_logged_in d \<longrightarrow> timers st c \<noteq> None)
            \<longrightarrow> (\<exists>resp. r = Inr (Clients resp))))) \<and>
     (drivers st = pre @ (c, d) # post \<and> \<not> is_logged_in d \<and> \<not> quit d \<and>
      (\<forall>(k, e) \<in> set pre.
         \<not> is_logged_in e \<longrightarrow> quit e \<and> (\<exists>t. timers st k = Some (Ref t))) \<longrightarrow>
      kill_clients req st =
        (Inl DriverError,
         st\<lparr>drivers := filter (\<lambda>(k, e). is_logged_in e) pre @ post,
            timers := (\<lambda>k. if \<exists>e. map_of pre k = Some e \<and> \<not> is_logged_in e
                            then Some PyNone else timers st k),
            semaphores := (\<lambda>k. if \<exists>e. map_of pre k = Some e \<and> \<not> is_logged_in e
                            then Some PyNone else semaphores st k),
            trace := trace st @ sweep_events st (map fst pre) @
                     [IsLoggedIn (ident d), Quit (ident d)]\<rparr>))"
proof -
  let ?clients = "str_split CHR '','' s"
  have iff: "map_of (drivers st) c = Some d \<longleftrightarrow> (c, d) \<in> set (drivers st)" for c d
    using assms(1) by simp
  have notin: "c \<notin> set ?clients" if "(c, d) \<in> set (drivers st)" for c d
    using that assms(3) iff by force
  have kd: "(case args req ''kill_dead'' of None \<Rightarrow> False
             | Some v \<Rightarrow> v = ''true'' \<or> v = ''1'') = True"
    using assms(4,5) by simp
  have kc: "kill_clients req st =
      (case kill_loop True ?clients (map fst (drivers st)) st of
         (Inl e, st1) \<Rightarrow> (Inl e, st1)
       | (Inr u, st1) \<Rightarrow> get_active_clients st1)"
    unfolding kill_clients_def assms(2) Let_def kd by simp
  show ?thesis
  proof (intro conjI impI)
    assume ok: "\<forall>(c, d) \<in> set (drivers st).
         \<not> is_logged_in d \<longrightarrow> quit d \<and> (\<exists>t. timers st c = Some (Ref t))"
    let ?cs = "map fst (drivers st)"
    have pre: "\<forall>c \<in> set ?cs. c \<notin> set ?clients \<and>
           (\<exists>d. map_of (drivers st) c = Some d \<and>
                (\<not> is_logged_in d \<longrightarrow> quit d \<and> (\<exists>t. timers st c = Some (Ref t))))"
    proof
      fix c
      assume "c \<in> set ?cs"
      then obtain d where m: "(c, d) \<in> set (drivers st)" by auto
      with ok have "\<not> is_logged_in d \<longrightarrow> quit d \<and> (\<exists>t. timers st c = Some (Ref t))"
        by auto
      with m notin [OF m] show "c \<notin> set ?clients \<and>
           (\<exists>d. map_of (drivers st) c = Some d \<and>
                (\<not> is_logged_in d \<longrightarrow> quit d \<and> (\<exists>t. timers st c = Some (Ref t))))"
        using iff by blast
    qed
    let ?dead = "\<lambda>k. \<exists>d. map_of (drivers st) k = Some d \<and> \<not> is_logged_in d"
    let ?s1 = "st\<lparr>drivers := filter (\<lambda>(c, d). is_logged_in d) (drivers st),
                  timers := (\<lambda>k. if ?dead k then Some PyNone else timers st k),
                  semaphores := (\<lambda>k. if ?dead k then Some PyNone else semaphores st k),
                  trace := trace st @ sweep_events st ?cs\<rparr>"
    have f1: "filter (\<lambda>(k, d). k \<notin> set ?cs \<or> is_logged_in d) (drivers st) =
              filter (\<lambda>(c, d). is_logged_in d) (drivers st)"
      by (rule filter_cong) force+
    have f2: "(k \<in> set ?cs \<and> ?dead k) = ?dead k" for k
      by (auto simp: iff intro: rev_image_eqI)
    have l: "kill_loop True ?clients ?cs st = (Inr (), ?s1)"
      using kill_loop_sweep [OF assms(1) assms(1) pre] by (simp only: f1 f2)
    obtain r st' where g: "get_active_clients ?s1 = (r, st')"
      by (cases "get_active_clients ?s1")
    from get_active_clients_exact [OF g] obtain qs where
      st': "st' = ?s1\<lparr>trace := trace ?s1 @ map GetStatus qs\<rparr>"
      by blast
    have 1: "kill_clients req st =
       (r, st\<lparr>drivers := filter (\<lambda>(c, d). is_logged_in d) (drivers st),
              timers := (\<lambda>k. if ?dead k then Some PyNone else timers st k),
              semaphores := (\<lambda>k. if ?dead k then Some PyNone else semaphores st k),
              trace := trace st @ sweep_events st ?cs @ map GetStatus qs\<rparr>)"
      unfolding kc l using g st' by simp
    have 2: "\<exists>resp. r = Inr (Clients resp)"
      if t: "\<forall>(c, d) \<in> set (drivers st). is_logged_in d \<longrightarrow> timers st c \<noteq> None"
    proof (cases "drivers ?s1 = []")
      case True
      with g show ?thesis by (auto simp: get_active_clients_def)
    next
      case False
      have "\<forall>c \<in> set (map fst (drivers ?s1)).
              map_of (drivers ?s1) c \<noteq> None \<and> timers ?s1 c \<noteq> None"
      proof
        fix c
        assume "c \<in> set (map fst (drivers ?s1))"
        then obtain d where m1: "(c, d) \<in> set (drivers ?s1)" by auto
        then have m: "(c, d) \<in> set (drivers st)" and li: "is_logged_in d"
          by auto
        then have md: "map_of (drivers st) c = Some d" by (simp add: iff)
        with li have nd: "\<not> ?dead c" by simp
        from t m li have "timers st c \<noteq> None" by auto
        with nd have "timers ?s1 c \<noteq> None" by simp
        moreover from m li have "c \<in> fst ` set (filter (\<lambda>(c, d). is_logged_in d) (drivers st))"
          by force
        then have "map_of (drivers ?s1) c \<noteq> None"
          by (simp add: map_of_eq_None_iff)
        ultimately show "map_of (drivers ?s1) c \<noteq> None \<and> timers ?s1 c \<noteq> None" by simp
      qed
      from client_infos_ok [OF this] obtain resp s2 where
        "client_infos (map fst (drivers ?s1)) ?s1 = (Inr resp, s2)"
        by blast
      with g False show ?thesis by (auto simp: get_active_clients_def)
    qed
    show "\<exists>r qs.
         kill_clients req st =
           (r, st\<lparr>drivers := filter (\<lambda>(c, d). is_logged_in d) (drivers st),
                  timers := (\<lambda>k. if ?dead k then Some PyNone else timers st k),
                  semaphores := (\<lambda>k. if ?dead k then Some PyNone else semaphores st k),
                  trace := trace st @ sweep_events st (map fst (drivers st)) @
                           map GetStatus qs\<rparr>) \<and>
         ((\<forall>(c, d) \<in> set (drivers st). is_logged_in d \<longrightarrow> timers st c \<noteq> None)
            \<longrightarrow> (\<exists>resp. r = Inr (Clients resp)))"
    proof (rule exI [of _ r], rule exI [of _ qs], intro conjI impI)
      show "kill_clients req st =
       (r, st\<lparr>drivers := filter (\<lambda>(c, d). is_logged_in d) (drivers st),
              timers := (\<lambda>k. if ?dead k then Some PyNone else timers st k),
              semaphores := (\<lambda>k. if ?dead k then Some PyNone else semaphores st k),
              trace := trace st @ sweep_events st (map fst (drivers st)) @
                       map GetStatus qs\<rparr>)"
        by (fact 1)
      assume "\<forall>(c, d) \<in> set (drivers st). is_logged_in d \<longrightarrow> timers st c \<noteq> None"
      then show "\<exists>resp. r = Inr (Clients resp)"
        by (rule 2)
    qed
  next
    assume b: "drivers st = pre @ (c, d) # post \<and> \<not> is_logged_in d \<and> \<not> quit d \<and>
      (\<forall>(k, e) \<in> set pre.
         \<not> is_logged_in e \<longrightarrow> quit e \<and> (\<exists>t. timers st k = Some (Ref t)))"
    then have ds: "drivers st = pre @ (c, d) # post" and nl: "\<not> is_logged_in d"
      and nq: "\<not> quit d"
      and okp: "\<forall>(k, e) \<in> set pre.
         \<not> is_logged_in e \<longrightarrow> quit e \<and> (\<exists>t. timers st k = Some (Ref t))"
      by blast+
    let ?cs = "map fst pre"
    from assms(1) ds have dist: "distinct ?cs" "c \<notin> set ?cs" "c \<notin> fst ` set post"
      "set ?cs \<inter> fst ` set post = {}" "distinct (map fst post)"
      by auto
    have mp: "map_of (drivers st) k = Some e" if "(k, e) \<in> set pre" for k e
      using that ds iff by simp
    have mpre: "map_of pre k = Some e \<longleftrightarrow> (k, e) \<in> set pre" for k e
      using dist(1) by simp
    have pre: "\<forall>k \<in> set ?cs. k \<notin> set ?clients \<and>
           (\<exists>e. map_of (drivers st) k = Some e \<and>
                (\<not> is_logged_in e \<longrightarrow> quit e \<and> (\<exists>t. timers st k = Some (Ref t))))"
    proof
      fix k
      assume "k \<in> set ?cs"
      then obtain e where m: "(k, e) \<in> set pre" by auto
      with okp have "\<not> is_logged_in e \<longrightarrow> quit e \<and> (\<exists>t. timers st k = Some (Ref t))"
        by auto
      moreover from m ds have "(k, e) \<in> set (drivers st)" by simp
      ultimately show "k \<notin> set ?clients \<and>
           (\<exists>e. map_of (drivers st) k = Some e \<and>
                (\<not> is_logged_in e \<longrightarrow> quit e \<and> (\<exists>t. timers st k = Some (Ref t))))"
        using notin mp [OF m] by blast
    qed
    let ?deadp = "\<lambda>k. \<exists>e. map_of pre k = Some e \<and> \<not> is_logged_in e"
    let ?s1 = "st\<lparr>drivers := filter (\<lambda>(k, e). is_logged_in e) pre @ (c, d) # post,
                  timers := (\<lambda>k. if ?deadp k then Some PyNone else timers st k),
                  semaphores := (\<lambda>k. if ?deadp k then Some PyNone else semaphores st k),
                  trace := trace st @ sweep_events st ?cs\<rparr>"
    have f1: "filter (\<lambda>(k, e). k \<notin> set ?cs \<or> is_logged_in e) (drivers st) =
              filter (\<lambda>(k, e). is_logged_in e) pre @ (c, d) # post"
    proof -
      have "filter (\<lambda>(k, e). k \<notin> set ?cs \<or> is_logged_in e) pre =
            filter (\<lambda>(k, e). is_logged_in e) pre"
        by (rule filter_cong) force+
      moreover have "k \<notin> set ?cs" if "(k, e) \<in> set post" for k e
        using dist(4) that by force
      then have "filter (\<lambda>(k, e). k \<notin> set ?cs \<or> is_logged_in e) post = post"
        by (auto simp: filter_id_conv)
      ultimately show ?thesis
        using dist(2) by (simp add: ds)
    qed
    have f2: "(k \<in> set ?cs \<and> (\<exists>e. map_of (drivers st) k = Some e \<and> \<not> is_logged_in e)) =
              ?deadp k" for k
    proof
      assume a: "k \<in> set ?cs \<and> (\<exists>e. map_of (drivers st) k = Some e \<and> \<not> is_logged_in e)"
      then obtain e where m: "(k, e) \<in> set pre" by auto
      from mp [OF m] a have "\<not> is_logged_in e" by auto
      with m show "?deadp k" by (auto simp: mpre)
    next
      assume "?deadp k"
      then obtain e where m: "(k, e) \<in> set pre" and "\<not> is_logged_in e"
        by (auto simp: mpre)
      with mp [OF m] show
        "k \<in> set ?cs \<and> (\<exists>e. map_of (drivers st) k = Some e \<and> \<not> is_logged_in e)"
        by force
    qed
    have l1: "kill_loop True ?clients ?cs st = (Inr (), ?s1)"
      using kill_loop_sweep [OF dist(1) assms(1) pre] by (simp only: f1 f2)
    have mc: "map_of (drivers ?s1) c = Some d"
    proof -
      have "c \<notin> fst ` set (filter (\<lambda>(k, e). is_logged_in e) pre)"
        using dist(2) by force
      then have "map_of (filter (\<lambda>(k, e). is_logged_in e) pre) c = None"
        by (simp add: map_of_eq_None_iff)
      then show ?thesis by (simp add: map_add_def)
    qed
    have c_cl: "\<not> is_logged_in d \<or> c \<in> set ?clients"
      using nl by simp
    have del: "AList.delete c (drivers ?s1) = filter (\<lambda>(k, e). is_logged_in e) pre @ post"
    proof -
      have "c \<notin> fst ` set (filter (\<lambda>(k, e). is_logged_in e) pre)"
        using dist(2) by force
      then have d1: "AList.delete c (filter (\<lambda>(k, e). is_logged_in e) pre) =
          filter (\<lambda>(k, e). is_logged_in e) pre"
        by (rule delete_id)
      have d2: "AList.delete c post = post"
        using dist(3) by (rule delete_id)
      have "AList.delete c (xs @ (c, d) # post) = AList.delete c xs @ AList.delete c post"
        for xs
        by (simp add: AList.delete_eq)
      then show ?thesis
        by (simp add: d1 d2)
    qed
    have l2: "kill_one True ?clients c ?s1 =
       (Inl DriverError,
        st\<lparr>drivers := filter (\<lambda>(k, e). is_logged_in e) pre @ post,
           timers := (\<lambda>k. if ?deadp k then Some PyNone else timers st k),
           semaphores := (\<lambda>k. if ?deadp k then Some PyNone else semaphores st k),
           trace := trace st @ sweep_events st ?cs @
                    [IsLoggedIn (ident d), Quit (ident d)]\<rparr>)"
      unfolding kill_one_quit_fails [OF mc nq c_cl] del by simp
    have "kill_loop True ?clients (map fst (drivers st)) st =
          kill_loop True ?clients (c # map fst post) ?s1"
      unfolding ds using l1 by (simp add: kill_loop_append)
    with l2 show "kill_clients req st =
        (Inl DriverError,
         st\<lparr>drivers := filter (\<lambda>(k, e). is_logged_in e) pre @ post,
            timers := (\<lambda>k. if ?deadp k then Some PyNone else timers st k),
            semaphores := (\<lambda>k. if ?deadp k then Some PyNone else semaphores st k),
            trace := trace st @ sweep_events st (map fst pre) @
                     [IsLoggedIn (ident d), Quit (ident d)]\<rparr>)"
      unfolding kc by simp
  qed
qed

theorem kill_dead_sweep_witness:
  "distinct (map fst (drivers (example_state
      [(''A'', example_driver 0 LoggedIn True (Some [])),
       (''B'', example_driver 1 NotLoggedIn True (Some []))]
      [''A'', ''B''] [''A'' \<mapsto> Ref 1, ''B'' \<mapsto> Ref 1]))) \<and>
   form (example_kill_request (Some []) (Some ''true'')) ''clients'' = Some [] \<and>
   args (example_kill_request (Some []) (Some ''true'')) ''kill_dead'' = Some ''true'' \<and>
   drivers (snd (kill_clients (example_kill_request (Some []) (Some ''true''))
        (example_state
           [(''A'', example_driver 0 LoggedIn True (Some [])),
            (''B'', example_driver 1 NotLoggedIn True (Some []))]
           [''A'', ''B''] [''A'' \<mapsto> Ref 1, ''B'' \<mapsto> Ref 1]))) =
     [(''A'', example_driver 0 LoggedIn True (Some []))] \<and>
   timers (snd (kill_clients (example_kill_request (Some []) (Some ''true''))
        (example_state
           [(''A'', example_driver 0 LoggedIn True (Some [])),
            (''B'', example_driver 1 NotLoggedIn True (Some []))]
           [''A'', ''B''] [''A'' \<mapsto> Ref 1, ''B'' \<mapsto> Ref 1]))) ''B'' = Some PyNone \<and>
   semaphores (snd (kill_clients (example_kill_request (Some []) (Some ''true''))
        (example_state
           [(''A'', example_driver 0 LoggedIn True (Some [])),
            (''B'', example_driver 1 NotLoggedIn True (Some []))]
           [''A'', ''B''] [''A'' \<mapsto> Ref 1, ''B'' \<mapsto> Ref 1]))) ''B'' = Some PyNone \<and>
   semaphores (snd (kill_clients (example_kill_request (Some []) (Some ''true''))
        (example_state
           [(''A'', example_driver 0 LoggedIn True (Some [])),
            (''B'', example_driver 1 NotLoggedIn True (Some []))]
           [''A'', ''B''] [''A'' \<mapsto> Ref 1, ''B'' \<mapsto> Ref 1]))) ''A'' = Some (Ref 1) \<and>
   (\<exists>qs. trace (snd (kill_clients (example_kill_request (Some []) (Some ''true''))
        (example_state
           [(''A'', example_driver 0 LoggedIn True (Some [])),
            (''B'', example_driver 1 NotLoggedIn True (Some []))]
           [''A'', ''B''] [''A'' \<mapsto> Ref 1, ''B'' \<mapsto> Ref 1]))) =
      [IsLoggedIn 0, IsLoggedIn 1, Quit 1, TimerCancel ''B'', SemRelease ''B''] @
      map GetStatus qs) \<and>
   \<not> is_logged_in (example_driver 0 NotLoggedIn False (Some [])) \<and>
   \<not> quit (example_driver 0 NotLoggedIn False (Some [])) \<and>
   fst (kill_clients (example_kill_request (Some []) (Some ''true''))
        (example_state
           [(''a'', example_driver 0 NotLoggedIn False (Some [])),
            (''b'', example_driver 1 NotLoggedIn True (Some []))]
           [''a'', ''b''] [''a'' \<mapsto> Ref 1, ''b'' \<mapsto> Ref 1])) = Inl DriverError \<and>
   drivers (snd (kill_clients (example_kill_request (Some []) (Some ''true''))
        (example_state
           [(''a'', example_driver 0 NotLoggedIn False (Some [])),
            (''b'', example_driver 1 NotLoggedIn True (Some []))]
           [''a'', ''b''] [''a'' \<mapsto> Ref 1, ''b'' \<mapsto> Ref 1]))) =
     [(''b'', example_driver 1 NotLoggedIn True (Some []))] \<and>
   trace (snd (kill_clients (example_kill_request (Some []) (Some ''true''))
        (example_state
           [(''a'', example_driver 0 NotLoggedIn False (Some [])),
            (''b'', example_driver 1 NotLoggedIn True (Some []))]
           [''a'', ''b''] [''a'' \<mapsto> Ref 1, ''b'' \<mapsto> Ref 1]))) = [IsLoggedIn 0, Quit 0] \<and>
   timers (snd (kill_clients (example_kill_request (Some []) (Some ''true''))
        (example_state
           [(''a'', example_driver 0 NotLoggedIn False (Some [])),
            (''b'', example_driver 1 NotLoggedIn True (Some []))]
           [''a'', ''b''] [''a'' \<mapsto> Ref 1, ''b'' \<mapsto> Ref 1]))) ''a'' =
     Some (Ref \<lparr>interval = 2, args = ''a'', is_running = True\<rparr>) \<and>
   semaphores (snd (kill_clients (example_kill_request (Some []) (Some ''true''))
        (example_state
           [(''a'', example_driver 0 NotLoggedIn False (Some [])),
            (''b'', example_driver 1 NotLoggedIn True (Some []))]
           [''a'', ''b''] [''a'' \<mapsto> Ref 1, ''b'' \<mapsto> Ref 1]))) ''a'' = Some (Ref 1) \<and>
   semaphores (snd (kill_clients (example_kill_request (Some []) (Some ''true''))
        (example_state
           [(''a'', example_driver 0 NotLoggedIn False (Some [])),
            (''b'', example_driver 1 NotLoggedIn True (Some []))]
           [''a'', ''b''] [''a'' \<mapsto> Ref 1, ''b'' \<mapsto> Ref 1]))) ''b'' = Some (Ref 1)"
proof -
  let ?dA = "example_driver 0 LoggedIn True (Some [])"
  let ?dB = "example_driver 1 NotLoggedIn True (Some [])"
  let ?st = "example_state [(''A'', ?dA), (''B'', ?dB)] [''A'', ''B'']
               [''A'' \<mapsto> Ref 1, ''B'' \<mapsto> Ref 1]"
  let ?da = "example_driver 0 NotLoggedIn False (Some [])"
  let ?db = "example_driver 1 NotLoggedIn True (Some [])"
  let ?sq = "example_state [(''a'', ?da), (''b'', ?db)] [''a'', ''b'']
               [''a'' \<mapsto> Ref 1, ''b'' \<mapsto> Ref 1]"
  let ?rq = "example_kill_request (Some []) (Some ''true'')"
  have ds: "drivers ?st = [(''A'', ?dA), (''B'', ?dB)]"
    and sm: "semaphores ?st = [''A'' \<mapsto> Ref 1, ''B'' \<mapsto> Ref 1]"
    and tr: "trace ?st = []"
    by (simp_all add: example_state_def)
  have lg: "is_logged_in ?dA" "\<not> is_logged_in ?dB" "quit ?dB" "ident ?dB = 1" "ident ?dA = 0"
    by (simp_all add: example_driver_def)
  have h1: "distinct (map fst (drivers ?st))"
    by (simp add: example_state_def)
  have h2: "form ?rq ''clients'' = Some []"
    by (simp add: example_kill_request_def)
  have h3: "\<forall>c \<in> set (str_split CHR '','' []). map_of (drivers ?st) c = None"
    by (simp add: example_state_def)
  have h4: "args ?rq ''kill_dead'' = Some ''true''"
    by (simp add: example_kill_request_def)
  have h5: "''true'' = ''true'' \<or> ''true'' = ''1''"
    by simp
  have tB: "timers ?st ''B'' = Some (Ref \<lparr>interval = 2, args = ''B'', is_running = True\<rparr>)"
    by (simp add: example_state_def)
  have h6: "\<forall>(c, d) \<in> set (drivers ?st).
           \<not> is_logged_in d \<longrightarrow> quit d \<and> (\<exists>t. timers ?st c = Some (Ref t))"
    unfolding ds using lg tB by simp
  note A = kill_dead_sweep [OF h1 h2 h3 h4 h5, THEN conjunct1, THEN mp, OF h6]
  from A obtain r qs where E: "kill_clients ?rq ?st =
     (r, ?st\<lparr>drivers := filter (\<lambda>(c, d). is_logged_in d) (drivers ?st),
              timers := (\<lambda>k. if \<exists>d. map_of (drivers ?st) k = Some d \<and> \<not> is_logged_in d
                              then Some PyNone else timers ?st k),
              semaphores := (\<lambda>k. if \<exists>d. map_of (drivers ?st) k = Some d \<and> \<not> is_logged_in d
                              then Some PyNone else semaphores ?st k),
              trace := trace ?st @ sweep_events ?st (map fst (drivers ?st)) @
                       map GetStatus qs\<rparr>)"
    by (elim exE conjE) (rule that)
  have a1: "drivers (snd (kill_clients ?rq ?st)) = [(''A'', ?dA)]"
    unfolding E by (simp add: example_state_def example_driver_def)
  have a2: "timers (snd (kill_clients ?rq ?st)) ''B'' = Some PyNone"
    unfolding E by (simp add: example_state_def example_driver_def)
  have a3: "semaphores (snd (kill_clients ?rq ?st)) ''B'' = Some PyNone"
    unfolding E by (simp add: example_state_def example_driver_def)
  have a4: "semaphores (snd (kill_clients ?rq ?st)) ''A'' = Some (Ref 1)"
    unfolding E by (simp add: example_state_def example_driver_def)
  have a5: "\<exists>qs. trace (snd (kill_clients ?rq ?st)) =
      [IsLoggedIn 0, IsLoggedIn 1, Quit 1, TimerCancel ''B'', SemRelease ''B''] @
      map GetStatus qs"
    unfolding E
    by (rule exI [of _ qs])
       (simp add: sweep_events_def removal_events_def example_state_def example_driver_def)
  have g1: "distinct (map fst (drivers ?sq))"
    by (simp add: example_state_def)
  have g3: "\<forall>c \<in> set (str_split CHR '','' []). map_of (drivers ?sq) c = None"
    by (simp add: example_state_def)
  have lq: "\<not> is_logged_in ?da" "\<not> quit ?da" "ident ?da = 0"
    by (simp_all add: example_driver_def)
  have hb: "drivers ?sq = [] @ (''a'', ?da) # [(''b'', ?db)] \<and>
      \<not> is_logged_in ?da \<and> \<not> quit ?da \<and>
      (\<forall>(k, e) \<in> set [].
         \<not> is_logged_in e \<longrightarrow> quit e \<and> (\<exists>t. timers ?sq k = Some (Ref t)))"
    using lq by (simp add: example_state_def)
  note B = kill_dead_sweep [OF g1 h2 g3 h4 h5, THEN conjunct2, THEN mp, OF hb]
  have b1: "fst (kill_clients ?rq ?sq) = Inl DriverError"
    unfolding B by simp
  have b2: "drivers (snd (kill_clients ?rq ?sq)) = [(''b'', ?db)]"
    unfolding B by simp
  have b3: "trace (snd (kill_clients ?rq ?sq)) = [IsLoggedIn 0, Quit 0]"
    unfolding B by (simp add: sweep_events_def example_state_def example_driver_def)
  have b4: "timers (snd (kill_clients ?rq ?sq)) ''a'' =
      Some (Ref \<lparr>interval = 2, args = ''a'', is_running = True\<rparr>)"
    unfolding B by (simp add: example_state_def)
  have b5: "semaphores (snd (kill_clients ?rq ?sq)) ''a'' = Some (Ref 1)"
    "semaphores (snd (kill_clients ?rq ?sq)) ''b'' = Some (Ref 1)"
    unfolding B by (simp_all add: example_state_def)
  from h1 h2 h4 a1 a2 a3 a4 a5 lq(1,2) b1 b2 b3 b4 b5 show ?thesis
    by (intro conjI)
qed

end
